theory Spec2Isabelle
  imports Main "HOL-Library.AList"
begin

section \<open>Python values, objects and errors\<close>

text \<open>
  The token records of \<^verbatim>\<open>genro_auth\<close> are Python dictionaries with string keys whose
  values are strings, lists of strings, timestamps or \<^verbatim>\<open>None\<close>. Dictionaries and lists
  are mutable objects that are passed by reference, so they live in an explicit heap and a
  value that denotes one of them is an address. A dictionary is an association list: Python
  dictionaries keep their insertion order, and the empty dictionary is falsy.
\<close>

type_synonym addr = nat

record datetime =
  year :: nat
  month :: nat
  day :: nat
  hour :: nat
  minute :: nat
  second :: nat
  microsecond :: nat

datatype pyval = PNone | PStr string | PDatetime datetime | PRef addr

datatype obj = ODict "(string \<times> pyval) list" | OList "string list"

datatype error = TypeError | KeyError | ValueError | OverflowError

section \<open>The part of Python's datetime library that the program calls\<close>

text \<open>
  \<^verbatim>\<open>datetime.utcnow()\<close> yields a naive timestamp (no time zone) with microsecond
  resolution; only naive timestamps are modelled. The functions below follow the
  library's reference implementation: the proleptic Gregorian calendar with ordinal 1 for
  0001-01-01, the range check of the constructor, the field-wise comparison,
  \<^verbatim>\<open>isoformat()\<close>, \<^verbatim>\<open>fromisoformat\<close> and the addition of
  \<^verbatim>\<open>timedelta(seconds=n)\<close>.
\<close>

definition is_leap :: "nat \<Rightarrow> bool" where
  "is_leap y = (y mod 4 = 0 \<and> (y mod 100 \<noteq> 0 \<or> y mod 400 = 0))"

definition DAYS_IN_MONTH :: "nat list" where
  "DAYS_IN_MONTH = [0, 31, 28, 31, 30, 31, 30, 31, 31, 30, 31, 30, 31]"

definition DAYS_BEFORE_MONTH :: "nat list" where
  "DAYS_BEFORE_MONTH = [0, 0, 31, 59, 90, 120, 151, 181, 212, 243, 273, 304, 334]"

definition days_in_month :: "nat \<Rightarrow> nat \<Rightarrow> nat" where
  "days_in_month y m =
     (if m = 2 \<and> is_leap y then 29 else if m \<le> 12 then DAYS_IN_MONTH ! m else 0)"

definition days_before_year :: "nat \<Rightarrow> nat" where
  "days_before_year y =
     (let y1 = y - 1 in y1 * 365 + y1 div 4 + y1 div 400 - y1 div 100)"

definition days_before_month :: "nat \<Rightarrow> nat \<Rightarrow> nat" where
  "days_before_month y m =
     (if m \<le> 12 then DAYS_BEFORE_MONTH ! m else 0) + (if 2 < m \<and> is_leap y then 1 else 0)"

definition ymd2ord :: "nat \<Rightarrow> nat \<Rightarrow> nat \<Rightarrow> nat" where
  "ymd2ord y m d = days_before_year y + days_before_month y m + d"

definition ord2ymd :: "nat \<Rightarrow> nat \<times> nat \<times> nat" where
  "ord2ymd ordinal =
     (let n0 = ordinal - 1;
          n400 = n0 div 146097; na = n0 mod 146097;
          n100 = na div 36524; nb = na mod 36524;
          n4 = nb div 1461; nc = nb mod 1461;
          n1 = nc div 365; n = nc mod 365;
          y = n400 * 400 + 1 + n100 * 100 + n4 * 4 + n1
      in if n1 = 4 \<or> n100 = 4 then (y - 1, 12, 31)
         else
           let leapyear = (n1 = 3 \<and> (n4 \<noteq> 24 \<or> n100 = 3));
               m = (n + 50) div 32;
               preceding = (if m \<le> 12 then DAYS_BEFORE_MONTH ! m else 0)
                             + (if 2 < m \<and> leapyear then 1 else 0)
           in if n < preceding
              then (let m' = m - 1;
                        preceding' = preceding
                          - ((if m' \<le> 12 then DAYS_IN_MONTH ! m' else 0)
                               + (if m' = 2 \<and> leapyear then 1 else 0))
                    in (y, m', n - preceding' + 1))
              else (y, m, n - preceding + 1))"

definition valid_datetime :: "datetime \<Rightarrow> bool" where
  "valid_datetime t =
     (1 \<le> year t \<and> year t \<le> 9999 \<and> 1 \<le> month t \<and> month t \<le> 12
      \<and> 1 \<le> day t \<and> day t \<le> days_in_month (year t) (month t)
      \<and> hour t < 24 \<and> minute t < 60 \<and> second t < 60 \<and> microsecond t < 1000000)"

text \<open>The constructor \<^verbatim>\<open>datetime(y, m, d, hh, mm, ss, us)\<close>: it raises
  \<^verbatim>\<open>ValueError\<close> when a field is out of range.\<close>

definition datetime_new ::
  "nat \<Rightarrow> nat \<Rightarrow> nat \<Rightarrow> nat \<Rightarrow> nat \<Rightarrow> nat \<Rightarrow> nat \<Rightarrow> error + datetime" where
  "datetime_new y m d hh mm ss us =
     (let t = \<lparr>year = y, month = m, day = d, hour = hh, minute = mm, second = ss,
               microsecond = us\<rparr>
      in if valid_datetime t then Inr t else Inl ValueError)"

text \<open>Comparison of two naive timestamps compares the tuples of their fields.\<close>

fun lex_less :: "nat list \<Rightarrow> nat list \<Rightarrow> bool" where
  "lex_less (x # xs) (y # ys) = (x < y \<or> (x = y \<and> lex_less xs ys))"
| "lex_less _ _ = False"

definition dt_fields :: "datetime \<Rightarrow> nat list" where
  "dt_fields t = [year t, month t, day t, hour t, minute t, second t, microsecond t]"

definition dt_less :: "datetime \<Rightarrow> datetime \<Rightarrow> bool" where
  "dt_less a b = lex_less (dt_fields a) (dt_fields b)"

text \<open>
  \<^verbatim>\<open>now + timedelta(seconds=n)\<close>. Building the \<^verbatim>\<open>timedelta\<close> raises
  \<^verbatim>\<open>OverflowError\<close> when it spans more than 999999999 days; the sum raises it when the
  day falls outside the years 1 to 9999; the result is built by the checked constructor.
\<close>

definition dt_add_seconds :: "datetime \<Rightarrow> int \<Rightarrow> error + datetime" where
  "dt_add_seconds t n =
     (if n div 86400 < - 999999999 \<or> 999999999 < n div 86400 then Inl OverflowError
      else
        let secs = int (hour t * 3600 + minute t * 60 + second t) + n;
            days = int (ymd2ord (year t) (month t) (day t)) + secs div 86400;
            rem = nat (secs mod 86400)
        in if 0 < days \<and> days \<le> 3652059
           then (case ord2ymd (nat days) of
                   (y, m, d) \<Rightarrow>
                     datetime_new y m d (rem div 3600) (rem mod 3600 div 60) (rem mod 60)
                       (microsecond t))
           else Inl OverflowError)"

text \<open>
  \<^verbatim>\<open>isoformat()\<close> of a naive timestamp is \<^verbatim>\<open>YYYY-MM-DDTHH:MM:SS\<close>, followed by
  \<^verbatim>\<open>.ffffff\<close> when the microsecond is not zero. \<open>zpad w n\<close> is the decimal numeral of
  \<open>n\<close> on \<open>w\<close> digits, padded with zeros (\<^verbatim>\<open>%0wd\<close> for \<open>n < 10 ^ w\<close>).
\<close>

definition digit_char :: "nat \<Rightarrow> char" where
  "digit_char d = char_of (48 + d)"

fun zpad :: "nat \<Rightarrow> nat \<Rightarrow> string" where
  "zpad 0 n = []"
| "zpad (Suc w) n = zpad w (n div 10) @ [digit_char (n mod 10)]"

definition isoformat :: "datetime \<Rightarrow> string" where
  "isoformat t =
     zpad 4 (year t) @ ''-'' @ zpad 2 (month t) @ ''-'' @ zpad 2 (day t) @ ''T''
     @ zpad 2 (hour t) @ '':'' @ zpad 2 (minute t) @ '':'' @ zpad 2 (second t)
     @ (if microsecond t \<noteq> 0 then ''.'' @ zpad 6 (microsecond t) else [])"

text \<open>
  \<^verbatim>\<open>datetime.fromisoformat\<close> is modelled on the two shapes that \<^verbatim>\<open>isoformat()\<close>
  writes for a naive timestamp; the fields are range-checked by the constructor. Every
  other string is reported as \<^verbatim>\<open>ValueError\<close> (\<open>None\<close>) here; Python accepts further
  ISO 8601 spellings, which the storage never writes itself.
\<close>

definition digit_val :: "char \<Rightarrow> nat option" where
  "digit_val c =
     (let k = (of_char c :: nat) in if 48 \<le> k \<and> k \<le> 57 then Some (k - 48) else None)"

fun parse_digits :: "nat \<Rightarrow> string \<Rightarrow> nat option" where
  "parse_digits acc [] = Some acc"
| "parse_digits acc (c # cs) =
     (case digit_val c of None \<Rightarrow> None | Some d \<Rightarrow> parse_digits (acc * 10 + d) cs)"

definition parse_field :: "string \<Rightarrow> nat \<Rightarrow> nat \<Rightarrow> nat option" where
  "parse_field s pos len = parse_digits 0 (take len (drop pos s))"

definition fromisoformat :: "string \<Rightarrow> datetime option" where
  "fromisoformat s =
     (if (length s = 19 \<or> length s = 26)
         \<and> s ! 4 = CHR ''-'' \<and> s ! 7 = CHR ''-'' \<and> s ! 10 = CHR ''T''
         \<and> s ! 13 = CHR '':'' \<and> s ! 16 = CHR '':''
         \<and> (length s = 26 \<longrightarrow> s ! 19 = CHR ''.'')
      then
        (case (parse_field s 0 4, parse_field s 5 2, parse_field s 8 2,
               parse_field s 11 2, parse_field s 14 2, parse_field s 17 2,
               if length s = 26 then parse_field s 20 6 else Some 0) of
           (Some y, Some m, Some d, Some hh, Some mm, Some ss, Some us) \<Rightarrow>
             (case datetime_new y m d hh mm ss us of Inl e \<Rightarrow> None | Inr t \<Rightarrow> Some t)
         | _ \<Rightarrow> None)
      else None)"

section \<open>Objects on the heap\<close>

text \<open>
  The heap is the list of all objects created so far; the address of an object is its
  index. Creating an object appends it, so an address that is in use is never handed out
  again.
\<close>

definition alloc :: "obj \<Rightarrow> obj list \<Rightarrow> addr \<times> obj list" where
  "alloc ob h = (length h, h @ [ob])"

definition lookup_obj :: "obj list \<Rightarrow> addr \<Rightarrow> obj option" where
  "lookup_obj h a = (if a < length h then Some (h ! a) else None)"

text \<open>\<^verbatim>\<open>d.get(k)\<close>: the value under \<open>k\<close>, or \<^verbatim>\<open>None\<close>.\<close>

definition dict_get :: "(string \<times> pyval) list \<Rightarrow> string \<Rightarrow> pyval" where
  "dict_get d k = (case map_of d k of None \<Rightarrow> PNone | Some v \<Rightarrow> v)"

text \<open>
  The truth value of a Python value, as \<^verbatim>\<open>not x\<close>, \<^verbatim>\<open>x or y\<close> and
  \<^verbatim>\<open>if x:\<close> read it: \<^verbatim>\<open>None\<close>, the empty string, the empty list and the
  empty dictionary are falsy, a timestamp is always truthy.
\<close>

fun truthy :: "obj list \<Rightarrow> pyval \<Rightarrow> bool" where
  "truthy h PNone = False"
| "truthy h (PStr x) = (x \<noteq> [])"
| "truthy h (PDatetime t) = True"
| "truthy h (PRef a) =
     (case lookup_obj h a of
        Some (OList xs) \<Rightarrow> xs \<noteq> []
      | Some (ODict d) \<Rightarrow> d \<noteq> []
      | None \<Rightarrow> False)"

text \<open>
  \<^verbatim>\<open>x < now\<close> where \<open>now\<close> is a timestamp: Python raises \<^verbatim>\<open>TypeError\<close> unless
  \<open>x\<close> is a timestamp too.
\<close>

definition py_lt_datetime :: "pyval \<Rightarrow> datetime \<Rightarrow> error + bool" where
  "py_lt_datetime x now =
     (case x of PDatetime t \<Rightarrow> Inr (dt_less t now) | _ \<Rightarrow> Inl TypeError)"

section \<open>storage.py: MemoryTokenStorage\<close>

text \<open>
  The state of the program: the heap, and the attribute \<^verbatim>\<open>_store\<close> of the
  \<^verbatim>\<open>MemoryTokenStorage\<close> instance, a dictionary from token hashes to the addresses
  of the stored record dictionaries.
\<close>

record state =
  heap :: "obj list"
  store :: "string \<rightharpoonup> addr"

text \<open>
  \<^verbatim>\<open>set(key, value)\<close>: \<^verbatim>\<open>value.copy()\<close> creates a new dictionary with the same
  keys and the same values (a shallow copy: a value that is a list stays the same list
  object). A timestamp under \<^verbatim>\<open>'expires_at'\<close> is replaced in the copy by its ISO
  string, and the copy is put in \<^verbatim>\<open>_store\<close>. The argument is a dictionary by its
  annotation; an address that holds no dictionary is reported as \<^verbatim>\<open>TypeError\<close>.
\<close>

definition storage_set :: "string \<Rightarrow> addr \<Rightarrow> state \<Rightarrow> error + state" where
  "storage_set key v s =
     (case lookup_obj (heap s) v of
        Some (ODict d) \<Rightarrow>
          (case alloc (ODict d) (heap s) of
             (stored_value, h1) \<Rightarrow>
               let h2 = (case map_of d ''expires_at'' of
                           Some (PDatetime t) \<Rightarrow>
                             h1[stored_value :=
                                  ODict (AList.update ''expires_at'' (PStr (isoformat t)) d)]
                         | _ \<Rightarrow> h1)
               in Inr (s\<lparr>heap := h2, store := (store s)(key \<mapsto> stored_value)\<rparr>))
      | _ \<Rightarrow> Inl TypeError)"

text \<open>
  \<^verbatim>\<open>get(key)\<close>: \<^verbatim>\<open>None\<close> when the key is absent; otherwise a new dictionary that
  copies the stored one, in which a string under \<^verbatim>\<open>'expires_at'\<close> is parsed back
  to a timestamp (\<^verbatim>\<open>ValueError\<close> when it does not parse).
\<close>

definition storage_get :: "string \<Rightarrow> state \<Rightarrow> error + (addr option \<times> state)" where
  "storage_get key s =
     (case store s key of
        None \<Rightarrow> Inr (None, s)
      | Some v \<Rightarrow>
          (case lookup_obj (heap s) v of
             Some (ODict d) \<Rightarrow>
               (case alloc (ODict d) (heap s) of
                  (result, h1) \<Rightarrow>
                    (case map_of d ''expires_at'' of
                       Some (PStr x) \<Rightarrow>
                         (case fromisoformat x of
                            None \<Rightarrow> Inl ValueError
                          | Some t \<Rightarrow>
                              Inr (Some result,
                                   s\<lparr>heap := h1[result :=
                                        ODict (AList.update ''expires_at'' (PDatetime t) d)]\<rparr>))
                     | _ \<Rightarrow> Inr (Some result, s\<lparr>heap := h1\<rparr>)))
           | _ \<Rightarrow> Inl TypeError))"

text \<open>\<^verbatim>\<open>delete(key)\<close>: \<^verbatim>\<open>_store.pop(key, None)\<close>, which ignores a missing key.\<close>

definition storage_delete :: "string \<Rightarrow> state \<Rightarrow> state" where
  "storage_delete key s = s\<lparr>store := (store s)(key := None)\<rparr>"

text \<open>
  \<^verbatim>\<open>delete\<close> called with a value read from a record, which need not be a string:
  a list or a dictionary is unhashable and \<^verbatim>\<open>pop\<close> raises \<^verbatim>\<open>TypeError\<close>; any
  other value that is not a string equals no key.
\<close>

definition storage_delete_val :: "pyval \<Rightarrow> state \<Rightarrow> error + state" where
  "storage_delete_val k s =
     (case k of
        PStr key \<Rightarrow> Inr (storage_delete key s)
      | PRef a \<Rightarrow> Inl TypeError
      | _ \<Rightarrow> Inr s)"

section \<open>tokens.py: TokenManager\<close>

text \<open>
  A \<^verbatim>\<open>TokenManager\<close> holds the two lifetimes in seconds (Python integers) and the
  storage, which is the \<open>state\<close> above. What the manager takes from its environment is
  passed to the model as arguments:
  \<^item> \<open>H\<close> is \<^verbatim>\<open>_hash_token\<close>, the SHA-256 hex digest of the token; the digest itself
    is not modelled and every theorem holds for any function \<open>H\<close>;
  \<^item> \<open>now\<close> is the reading of \<^verbatim>\<open>datetime.utcnow()\<close>;
  \<^item> \<open>access_token\<close> and \<open>refresh_token\<close> are the two draws of
    \<^verbatim>\<open>secrets.token_urlsafe(32)\<close>.
  \<^verbatim>\<open>user_id\<close> and \<^verbatim>\<open>scopes\<close> are Python values, because \<^verbatim>\<open>refresh_token\<close>
  passes on what it reads from a stored record without looking at its type.
\<close>

record manager =
  token_ttl :: int
  refresh_ttl :: int

record token_pair =
  pair_access_token :: string
  pair_refresh_token :: string
  expires_in :: int
  token_type :: string

text \<open>\<^verbatim>\<open>scopes or []\<close>: the value itself when it is truthy, else a new empty list.\<close>

definition scopes_or_empty :: "pyval \<Rightarrow> obj list \<Rightarrow> pyval \<times> obj list" where
  "scopes_or_empty scopes h =
     (if truthy h scopes then (scopes, h)
      else (case alloc (OList []) h of (a, h') \<Rightarrow> (PRef a, h')))"

definition generate_token ::
  "(string \<Rightarrow> string) \<Rightarrow> manager \<Rightarrow> datetime \<Rightarrow> string \<Rightarrow> string \<Rightarrow> pyval \<Rightarrow> pyval
     \<Rightarrow> state \<Rightarrow> error + (token_pair \<times> state)" where
  "generate_token H m now access_token refresh_token user_id scopes s =
     (let access_hash = H access_token;
          refresh_hash = H refresh_token
      in case dt_add_seconds now (token_ttl m) of
           Inl e \<Rightarrow> Inl e
         | Inr access_expires \<Rightarrow>
      (case dt_add_seconds now (refresh_ttl m) of
           Inl e \<Rightarrow> Inl e
         | Inr refresh_expires \<Rightarrow>
      (case scopes_or_empty scopes (heap s) of (sc1, h1) \<Rightarrow>
      (case alloc (ODict [(''user_id'', user_id), (''scopes'', sc1),
                          (''type'', PStr ''access''),
                          (''expires_at'', PDatetime access_expires)]) h1 of (d1, h2) \<Rightarrow>
      (case storage_set access_hash d1 (s\<lparr>heap := h2\<rparr>) of
           Inl e \<Rightarrow> Inl e
         | Inr s1 \<Rightarrow>
      (case scopes_or_empty scopes (heap s1) of (sc2, h3) \<Rightarrow>
      (case alloc (ODict [(''user_id'', user_id), (''scopes'', sc2),
                          (''access_token_hash'', PStr access_hash),
                          (''type'', PStr ''refresh''),
                          (''expires_at'', PDatetime refresh_expires)]) h3 of (d2, h4) \<Rightarrow>
      (case storage_set refresh_hash d2 (s1\<lparr>heap := h4\<rparr>) of
           Inl e \<Rightarrow> Inl e
         | Inr s2 \<Rightarrow>
             Inr (\<lparr>pair_access_token = access_token, pair_refresh_token = refresh_token,
                   expires_in = token_ttl m, token_type = ''Bearer''\<rparr>, s2)))))))))"

text \<open>
  \<^verbatim>\<open>validate_token\<close> returns the dictionary that \<^verbatim>\<open>get\<close> created (its address), or
  \<^verbatim>\<open>None\<close>. \<^verbatim>\<open>storage.get\<close> has just created the object at \<open>token_data\<close>, so the
  last branch (no dictionary at that address) is never taken.
\<close>

definition validate_token ::
  "(string \<Rightarrow> string) \<Rightarrow> datetime \<Rightarrow> string \<Rightarrow> state \<Rightarrow> error + (addr option \<times> state)" where
  "validate_token H now token s =
     (let token_hash = H token
      in case storage_get token_hash s of
           Inl e \<Rightarrow> Inl e
         | Inr (None, s1) \<Rightarrow> Inr (None, s1)
         | Inr (Some token_data, s1) \<Rightarrow>
             (case lookup_obj (heap s1) token_data of
                Some (ODict td) \<Rightarrow>
                  if td = [] then Inr (None, s1)
                  else if dict_get td ''type'' \<noteq> PStr ''access'' then Inr (None, s1)
                  else
                    let expires_at = dict_get td ''expires_at''
                    in if \<not> truthy (heap s1) expires_at
                       then Inr (None, storage_delete token_hash s1)
                       else (case py_lt_datetime expires_at now of
                               Inl e \<Rightarrow> Inl e
                             | Inr True \<Rightarrow> Inr (None, storage_delete token_hash s1)
                             | Inr False \<Rightarrow> Inr (Some token_data, s1))
              | _ \<Rightarrow> Inl TypeError))"

text \<open>
  \<^verbatim>\<open>refresh_token\<close> reads the clock twice: \<open>now\<close> for its own expiry check and
  \<open>now'\<close> inside \<^verbatim>\<open>generate_token\<close>, which also draws the two new tokens.
  \<^verbatim>\<open>refresh_data['user_id']\<close> raises \<^verbatim>\<open>KeyError\<close> when the key is missing, and the
  default \<^verbatim>\<open>[]\<close> of \<^verbatim>\<open>refresh_data.get('scopes', [])\<close> is created before the lookup.
\<close>

definition refresh_token ::
  "(string \<Rightarrow> string) \<Rightarrow> manager \<Rightarrow> datetime \<Rightarrow> datetime \<Rightarrow> string \<Rightarrow> string \<Rightarrow> string
     \<Rightarrow> state \<Rightarrow> error + (token_pair option \<times> state)" where
  "refresh_token H m now now' new_access_token new_refresh_token token s =
     (let refresh_hash = H token
      in case storage_get refresh_hash s of
           Inl e \<Rightarrow> Inl e
         | Inr (None, s1) \<Rightarrow> Inr (None, s1)
         | Inr (Some refresh_data, s1) \<Rightarrow>
             (case lookup_obj (heap s1) refresh_data of
                Some (ODict rd) \<Rightarrow>
                  if rd = [] then Inr (None, s1)
                  else if dict_get rd ''type'' \<noteq> PStr ''refresh'' then Inr (None, s1)
                  else
                    let expires_at = dict_get rd ''expires_at''
                    in if \<not> truthy (heap s1) expires_at
                       then Inr (None, storage_delete refresh_hash s1)
                       else (case py_lt_datetime expires_at now of
                               Inl e \<Rightarrow> Inl e
                             | Inr True \<Rightarrow> Inr (None, storage_delete refresh_hash s1)
                             | Inr False \<Rightarrow>
                                 let old_access_hash = dict_get rd ''access_token_hash''
                                 in case (if truthy (heap s1) old_access_hash
                                          then storage_delete_val old_access_hash s1
                                          else Inr s1) of
                                      Inl e \<Rightarrow> Inl e
                                    | Inr s2 \<Rightarrow>
                                        let s3 = storage_delete refresh_hash s2
                                        in case map_of rd ''user_id'' of
                                             None \<Rightarrow> Inl KeyError
                                           | Some user_id \<Rightarrow>
                                               (case alloc (OList []) (heap s3) of
                                                  (dflt, h4) \<Rightarrow>
                                                    let scopes =
                                                      (case map_of rd ''scopes'' of
                                                         None \<Rightarrow> PRef dflt
                                                       | Some v \<Rightarrow> v)
                                                    in case generate_token H m now'
                                                              new_access_token new_refresh_token
                                                              user_id scopes
                                                              (s3\<lparr>heap := h4\<rparr>) of
                                                         Inl e \<Rightarrow> Inl e
                                                       | Inr (pair, s5) \<Rightarrow> Inr (Some pair, s5)))
              | _ \<Rightarrow> Inl TypeError))"

definition revoke_token ::
  "(string \<Rightarrow> string) \<Rightarrow> string \<Rightarrow> state \<Rightarrow> error + (bool \<times> state)" where
  "revoke_token H token s =
     (let token_hash = H token
      in case storage_get token_hash s of
           Inl e \<Rightarrow> Inl e
         | Inr (None, s1) \<Rightarrow> Inr (False, s1)
         | Inr (Some token_data, s1) \<Rightarrow>
             (case lookup_obj (heap s1) token_data of
                Some (ODict td) \<Rightarrow>
                  if td = [] then Inr (False, s1)
                  else
                    (case (if dict_get td ''type'' = PStr ''refresh''
                           then (let access_hash = dict_get td ''access_token_hash''
                                 in if truthy (heap s1) access_hash
                                    then storage_delete_val access_hash s1
                                    else Inr s1)
                           else Inr s1) of
                       Inl e \<Rightarrow> Inl e
                     | Inr s2 \<Rightarrow> Inr (True, storage_delete token_hash s2))
              | _ \<Rightarrow> Inl TypeError))"

text \<open>
  What a caller can do to a list it holds: \<^verbatim>\<open>xs.append(x)\<close> changes the list object
  in place. On an address that holds no list the heap is left as it is.
\<close>

definition list_append :: "addr \<Rightarrow> string \<Rightarrow> state \<Rightarrow> state" where
  "list_append a x s =
     (case lookup_obj (heap s) a of
        Some (OList xs) \<Rightarrow> s\<lparr>heap := (heap s)[a := OList (xs @ [x])]\<rparr>
      | _ \<Rightarrow> s)"

section \<open>Notions used to state the properties\<close>

text \<open>
  Python has no dangling references: a value that is an address denotes an object of the
  heap.
\<close>

definition valid_val :: "obj list \<Rightarrow> pyval \<Rightarrow> bool" where
  "valid_val h v = (case v of PRef a \<Rightarrow> a < length h | _ \<Rightarrow> True)"

text \<open>
  What a caller sees of \<^verbatim>\<open>storage.get(key)['scopes']\<close>: the strings of the list, when
  \<^verbatim>\<open>get\<close> returns a record whose \<^verbatim>\<open>'scopes'\<close> is a list.
\<close>

definition get_scopes :: "string \<Rightarrow> state \<Rightarrow> string list option" where
  "get_scopes key s =
     (case storage_get key s of
        Inr (Some r, s') \<Rightarrow>
          (case lookup_obj (heap s') r of
             Some (ODict d) \<Rightarrow>
               (case map_of d ''scopes'' of
                  Some (PRef a) \<Rightarrow>
                    (case lookup_obj (heap s') a of Some (OList xs) \<Rightarrow> Some xs | _ \<Rightarrow> None)
                | _ \<Rightarrow> None)
           | _ \<Rightarrow> None)
      | _ \<Rightarrow> None)"

section \<open>Concrete inputs for the worked examples\<close>

text \<open>
  The examples run the model on concrete inputs. \<open>example_hash\<close> stands in for SHA-256
  there: like the digest it is never empty, and it is injective. \<open>example_manager\<close> has
  the default lifetimes of \<^verbatim>\<open>TokenManager\<close>.
\<close>

definition example_hash :: "string \<Rightarrow> string" where
  "example_hash token = CHR ''#'' # token"

definition example_manager :: manager where
  "example_manager = \<lparr>token_ttl = 3600, refresh_ttl = 86400\<rparr>"

definition example_now :: datetime where
  "example_now = \<lparr>year = 2024, month = 2, day = 28, hour = 23, minute = 30, second = 0,
                    microsecond = 250000\<rparr>"

definition empty_state :: state where
  "empty_state = \<lparr>heap = [], store = Map.empty\<rparr>"

text \<open>A caller's record \<^verbatim>\<open>{'user_id': 'u1', 'scopes': ['read'], 'type': 'access',
  'expires_at': example_now}\<close> at address 1, its scopes list at address 0.\<close>

definition caller_state :: state where
  "caller_state =
     \<lparr>heap = [OList [''read''],
              ODict [(''user_id'', PStr ''u1''), (''scopes'', PRef 0),
                     (''type'', PStr ''access''), (''expires_at'', PDatetime example_now)]],
      store = Map.empty\<rparr>"

text \<open>\<open>caller_state\<close> after \<^verbatim>\<open>storage.set('k', record)\<close>: the stored copy is at
  address 2 and holds the reference to the caller's list at address 0.\<close>

definition stored_state :: state where
  "stored_state =
     \<lparr>heap = [OList [''read''],
              ODict [(''user_id'', PStr ''u1''), (''scopes'', PRef 0),
                     (''type'', PStr ''access''), (''expires_at'', PDatetime example_now)],
              ODict [(''user_id'', PStr ''u1''), (''scopes'', PRef 0),
                     (''type'', PStr ''access''),
                     (''expires_at'', PStr (isoformat example_now))]],
      store = [''k'' \<mapsto> 2]\<rparr>"

text \<open>
  A caller that holds the list \<^verbatim>\<open>['read']\<close> (\<open>scopes_state\<close>) calls
  \<^verbatim>\<open>generate_token('u1', scopes)\<close> at \<open>example_now\<close> and draws the tokens
  \<^verbatim>\<open>'A'\<close> and \<^verbatim>\<open>'R'\<close>: the result is \<open>issued_state\<close>. The access token expires one
  hour later, the refresh token one day later.
\<close>

definition scopes_state :: state where
  "scopes_state = \<lparr>heap = [OList [''read'']], store = Map.empty\<rparr>"

definition example_access_expires :: datetime where
  "example_access_expires = \<lparr>year = 2024, month = 2, day = 29, hour = 0, minute = 30,
                               second = 0, microsecond = 250000\<rparr>"

definition example_refresh_expires :: datetime where
  "example_refresh_expires = \<lparr>year = 2024, month = 2, day = 29, hour = 23, minute = 30,
                                second = 0, microsecond = 250000\<rparr>"

text \<open>A reading of the clock after both tokens have expired.\<close>

definition example_later :: datetime where
  "example_later = \<lparr>year = 2024, month = 3, day = 1, hour = 8, minute = 0, second = 0,
                      microsecond = 0\<rparr>"

definition example_access_record :: "(string \<times> pyval) list" where
  "example_access_record =
     [(''user_id'', PStr ''u1''), (''scopes'', PRef 0), (''type'', PStr ''access''),
      (''expires_at'', PDatetime example_access_expires)]"

definition example_refresh_record :: "(string \<times> pyval) list" where
  "example_refresh_record =
     [(''user_id'', PStr ''u1''), (''scopes'', PRef 0),
      (''access_token_hash'', PStr (example_hash ''A'')), (''type'', PStr ''refresh''),
      (''expires_at'', PDatetime example_refresh_expires)]"

definition issued_state :: state where
  "issued_state =
     \<lparr>heap = [OList [''read''],
              ODict example_access_record,
              ODict (AList.update ''expires_at'' (PStr (isoformat example_access_expires))
                       example_access_record),
              ODict example_refresh_record,
              ODict (AList.update ''expires_at'' (PStr (isoformat example_refresh_expires))
                       example_refresh_record)],
      store = [example_hash ''A'' \<mapsto> 2, example_hash ''R'' \<mapsto> 4]\<rparr>"

text \<open>
  \<open>issued_state\<close> after \<^verbatim>\<open>refresh_token('R')\<close> at \<open>example_now\<close>, with the new tokens
  \<^verbatim>\<open>'A2'\<close> and \<^verbatim>\<open>'R2'\<close>: the copy made by \<^verbatim>\<open>get\<close> (address 5), the default list of
  \<^verbatim>\<open>.get('scopes', [])\<close> (address 6) and the four dictionaries of \<^verbatim>\<open>generate_token\<close>
  are new; both old keys are gone from \<^verbatim>\<open>_store\<close>.
\<close>

definition example_refresh_record2 :: "(string \<times> pyval) list" where
  "example_refresh_record2 =
     [(''user_id'', PStr ''u1''), (''scopes'', PRef 0),
      (''access_token_hash'', PStr (example_hash ''A2'')), (''type'', PStr ''refresh''),
      (''expires_at'', PDatetime example_refresh_expires)]"

definition refreshed_state :: state where
  "refreshed_state =
     \<lparr>heap = heap issued_state @
              [ODict example_refresh_record,
               OList [],
               ODict example_access_record,
               ODict (AList.update ''expires_at'' (PStr (isoformat example_access_expires))
                        example_access_record),
               ODict example_refresh_record2,
               ODict (AList.update ''expires_at'' (PStr (isoformat example_refresh_expires))
                        example_refresh_record2)],
      store = (store issued_state)
                (example_hash ''A'' := None, example_hash ''R'' := None,
                 example_hash ''A2'' \<mapsto> 8, example_hash ''R2'' \<mapsto> 10)\<rparr>"

section \<open>Timestamps survive the ISO string\<close>

lemma digit_val_digit_char: "d < 10 \<Longrightarrow> digit_val (digit_char d) = Some d"
  by (simp add: digit_val_def digit_char_def Let_def)

lemma length_zpad: "length (zpad w n) = w"
  by (induction w arbitrary: n) simp_all

lemma parse_digits_append:
  "parse_digits acc (xs @ ys) =
     (case parse_digits acc xs of None \<Rightarrow> None | Some a \<Rightarrow> parse_digits a ys)"
  by (induction xs arbitrary: acc) (simp_all split: option.splits)

lemma parse_digits_zpad:
  "n < 10 ^ w \<Longrightarrow> parse_digits acc (zpad w n) = Some (acc * 10 ^ w + n)"
proof (induction w arbitrary: n acc)
  case 0
  then show ?case by simp
next
  case (Suc w)
  from Suc.prems have "n div 10 < 10 ^ w"
    by (simp add: less_mult_imp_div_less mult.commute)
  then have "parse_digits acc (zpad w (n div 10)) = Some (acc * 10 ^ w + n div 10)"
    by (rule Suc.IH)
  then show ?case
    by (simp add: parse_digits_append digit_val_digit_char algebra_simps)
qed

lemma days_in_month_le: "days_in_month y m \<le> 31"
proof (cases "m \<le> 12")
  case True
  then have "DAYS_IN_MONTH ! m \<in> set DAYS_IN_MONTH"
    by (intro nth_mem) (simp add: DAYS_IN_MONTH_def)
  moreover have "\<forall>x\<in>set DAYS_IN_MONTH. x \<le> 31"
    by (simp add: DAYS_IN_MONTH_def)
  ultimately have "DAYS_IN_MONTH ! m \<le> 31"
    by blast
  then show ?thesis
    by (simp add: days_in_month_def)
next
  case False
  then show ?thesis
    by (simp add: days_in_month_def)
qed

lemma fromisoformat_isoformat:
  assumes "valid_datetime t"
  shows "fromisoformat (isoformat t) = Some t"
proof (cases t)
  case (fields y mo d hh mi ss us)
  have v: "valid_datetime \<lparr>year = y, month = mo, day = d, hour = hh, minute = mi,
             second = ss, microsecond = us\<rparr>"
    using assms fields by simp
  then have "d \<le> 31"
    using days_in_month_le [of y mo] by (simp add: valid_datetime_def)
  then have b: "y < 10 ^ 4" "mo < 10 ^ 2" "d < 10 ^ 2" "hh < 10 ^ 2"
    "mi < 10 ^ 2" "ss < 10 ^ 2" "us < 10 ^ 6"
    using v by (simp_all add: valid_datetime_def)
  show ?thesis
    using v unfolding fields
    by (simp add: fromisoformat_def isoformat_def parse_field_def nth_append length_zpad
        parse_digits_zpad [OF b(1)] parse_digits_zpad [OF b(2)] parse_digits_zpad [OF b(3)]
        parse_digits_zpad [OF b(4)] parse_digits_zpad [OF b(5)] parse_digits_zpad [OF b(6)]
        parse_digits_zpad [OF b(7)] datetime_new_def valid_datetime_def Let_def)
qed

lemma valid_example_now: "valid_datetime example_now"
  by (simp add: valid_datetime_def example_now_def days_in_month_def is_leap_def
      DAYS_IN_MONTH_def)

section \<open>What the storage operations do to the state\<close>

lemma storage_get_absent: "store s key = None \<Longrightarrow> storage_get key s = Inr (None, s)"
  by (simp add: storage_get_def)

lemma storage_set_state:
  assumes "lookup_obj (heap s) v = Some (ODict d)"
  shows "storage_set key v s =
           Inr (s\<lparr>heap := heap s @
                    [ODict (case map_of d ''expires_at'' of
                              Some (PDatetime t) \<Rightarrow>
                                AList.update ''expires_at'' (PStr (isoformat t)) d
                            | _ \<Rightarrow> d)],
                  store := (store s)(key \<mapsto> length (heap s))\<rparr>)"
  using assms
  by (simp add: storage_set_def alloc_def split: option.splits pyval.splits)

lemma storage_get_stored:
  assumes "store s key = Some c"
    and "lookup_obj (heap s) c = Some (ODict d)"
    and "map_of d ''expires_at'' = Some (PStr (isoformat e))"
    and "valid_datetime e"
  shows "storage_get key s =
           Inr (Some (length (heap s)),
                s\<lparr>heap := heap s @ [ODict (AList.update ''expires_at'' (PDatetime e) d)]\<rparr>)"
  using assms
  by (simp add: storage_get_def alloc_def fromisoformat_isoformat)

lemma storage_get_frame:
  assumes "storage_get key s = Inr (r, s1)"
  shows "store s1 = store s \<and> take (length (heap s)) (heap s1) = heap s"
  using assms
  by (auto simp: storage_get_def alloc_def split: option.splits obj.splits pyval.splits)

section \<open>Facts shared by the proofs\<close>

lemma lookup_obj_new: "lookup_obj (h @ [ob]) (length h) = Some ob"
  by (simp add: lookup_obj_def)

lemma dt_add_seconds_valid: "dt_add_seconds t n = Inr e \<Longrightarrow> valid_datetime e"
  by (auto simp: dt_add_seconds_def datetime_new_def Let_def split: if_splits prod.splits)

lemma type_nonempty: "dict_get d k = PStr x \<Longrightarrow> d \<noteq> []"
  by (auto simp: dict_get_def)

section \<open>The worked example, evaluated\<close>

lemma example_add_access:
  "dt_add_seconds example_now (token_ttl example_manager) = Inr example_access_expires"
  by (simp add: example_now_def example_manager_def example_access_expires_def
      dt_add_seconds_def ymd2ord_def ord2ymd_def days_before_year_def days_before_month_def
      DAYS_BEFORE_MONTH_def DAYS_IN_MONTH_def is_leap_def datetime_new_def valid_datetime_def
      days_in_month_def Let_def)

lemma example_add_refresh:
  "dt_add_seconds example_now (refresh_ttl example_manager) = Inr example_refresh_expires"
  by (simp add: example_now_def example_manager_def example_refresh_expires_def
      dt_add_seconds_def ymd2ord_def ord2ymd_def days_before_year_def days_before_month_def
      DAYS_BEFORE_MONTH_def DAYS_IN_MONTH_def is_leap_def datetime_new_def valid_datetime_def
      days_in_month_def Let_def)

lemma example_times_less:
  "dt_less example_access_expires example_refresh_expires"
  "\<not> dt_less example_access_expires example_access_expires"
  "\<not> dt_less example_access_expires example_now"
  "\<not> dt_less example_refresh_expires example_now"
  "\<not> dt_less example_refresh_expires example_access_expires"
  by (simp_all add: dt_less_def dt_fields_def example_access_expires_def
      example_refresh_expires_def example_now_def)

lemma example_hash_simps:
  "example_hash x = example_hash y \<longleftrightarrow> x = y" "example_hash x \<noteq> []"
  by (simp_all add: example_hash_def)

lemma issued_get_access:
  "storage_get (example_hash ''A'') issued_state =
     Inr (Some 5, issued_state\<lparr>heap := heap issued_state @ [ODict example_access_record]\<rparr>)"
proof -
  have "storage_get (example_hash ''A'') issued_state =
          Inr (Some (length (heap issued_state)),
               issued_state\<lparr>heap := heap issued_state @
                 [ODict (AList.update ''expires_at'' (PDatetime example_access_expires)
                    (AList.update ''expires_at'' (PStr (isoformat example_access_expires))
                       example_access_record))]\<rparr>)"
    by (rule storage_get_stored [where c = 2])
      (simp_all add: issued_state_def example_hash_simps lookup_obj_def
        example_access_record_def dt_add_seconds_valid [OF example_add_access])
  then show ?thesis
    by (simp add: issued_state_def example_access_record_def)
qed

lemma issued_get_refresh:
  "storage_get (example_hash ''R'') issued_state =
     Inr (Some 5, issued_state\<lparr>heap := heap issued_state @ [ODict example_refresh_record]\<rparr>)"
proof -
  have "storage_get (example_hash ''R'') issued_state =
          Inr (Some (length (heap issued_state)),
               issued_state\<lparr>heap := heap issued_state @
                 [ODict (AList.update ''expires_at'' (PDatetime example_refresh_expires)
                    (AList.update ''expires_at'' (PStr (isoformat example_refresh_expires))
                       example_refresh_record))]\<rparr>)"
    by (rule storage_get_stored [where c = 4])
      (simp_all add: issued_state_def example_hash_simps lookup_obj_def
        example_refresh_record_def dt_add_seconds_valid [OF example_add_refresh])
  then show ?thesis
    by (simp add: issued_state_def example_refresh_record_def)
qed

lemma issued_copy_lookup:
  "lookup_obj (heap (issued_state\<lparr>heap := heap issued_state @ [ODict d]\<rparr>)) 5 = Some (ODict d)"
  by (simp add: issued_state_def lookup_obj_def)

lemma validate_token_valid:
  assumes "storage_get (H token) s = Inr (Some td, s1)"
    and "lookup_obj (heap s1) td = Some (ODict rec)"
    and "dict_get rec ''type'' = PStr ''access''"
    and "dict_get rec ''expires_at'' = PDatetime e"
    and "\<not> dt_less e now"
  shows "validate_token H now token s = Inr (Some td, s1)"
proof -
  have "rec \<noteq> []"
    using assms(3) by (rule type_nonempty)
  then show ?thesis
    using assms by (simp add: validate_token_def py_lt_datetime_def Let_def)
qed

lemma example_later_less: "dt_less example_refresh_expires example_later"
  by (simp add: dt_less_def dt_fields_def example_refresh_expires_def example_later_def)

section \<open>What generate_token writes, and validation of a stored record\<close>

lemma truthy_append: "valid_val h v \<Longrightarrow> truthy (h @ xs) v = truthy h v"
  by (cases v) (simp_all add: valid_val_def lookup_obj_def nth_append)

lemma generate_token_truthy:
  assumes "dt_add_seconds now (token_ttl m) = Inr ea"
    and "dt_add_seconds now (refresh_ttl m) = Inr er"
    and "valid_val (heap s) scopes"
    and "truthy (heap s) scopes"
  shows "generate_token H m now a r uid scopes s =
           Inr (\<lparr>pair_access_token = a, pair_refresh_token = r,
                  expires_in = token_ttl m, token_type = ''Bearer''\<rparr>,
                s\<lparr>heap := heap s @
                     [ODict [(''user_id'', uid), (''scopes'', scopes),
                             (''type'', PStr ''access''), (''expires_at'', PDatetime ea)],
                      ODict [(''user_id'', uid), (''scopes'', scopes),
                             (''type'', PStr ''access''),
                             (''expires_at'', PStr (isoformat ea))],
                      ODict [(''user_id'', uid), (''scopes'', scopes),
                             (''access_token_hash'', PStr (H a)),
                             (''type'', PStr ''refresh''), (''expires_at'', PDatetime er)],
                      ODict [(''user_id'', uid), (''scopes'', scopes),
                             (''access_token_hash'', PStr (H a)),
                             (''type'', PStr ''refresh''),
                             (''expires_at'', PStr (isoformat er))]],
                  store := (store s)(H a \<mapsto> length (heap s) + 1,
                                     H r \<mapsto> length (heap s) + 3)\<rparr>)"
  using assms
  by (simp add: generate_token_def scopes_or_empty_def alloc_def storage_set_def
      lookup_obj_def nth_append list_update_append truthy_append Let_def
      eval_nat_numeral)

lemma generate_token_falsy:
  assumes "dt_add_seconds now (token_ttl m) = Inr ea"
    and "dt_add_seconds now (refresh_ttl m) = Inr er"
    and "valid_val (heap s) scopes"
    and "\<not> truthy (heap s) scopes"
  shows "generate_token H m now a r uid scopes s =
           Inr (\<lparr>pair_access_token = a, pair_refresh_token = r,
                  expires_in = token_ttl m, token_type = ''Bearer''\<rparr>,
                s\<lparr>heap := heap s @
                     [OList [],
                      ODict [(''user_id'', uid), (''scopes'', PRef (length (heap s))),
                             (''type'', PStr ''access''), (''expires_at'', PDatetime ea)],
                      ODict [(''user_id'', uid), (''scopes'', PRef (length (heap s))),
                             (''type'', PStr ''access''),
                             (''expires_at'', PStr (isoformat ea))],
                      OList [],
                      ODict [(''user_id'', uid), (''scopes'', PRef (length (heap s) + 3)),
                             (''access_token_hash'', PStr (H a)),
                             (''type'', PStr ''refresh''), (''expires_at'', PDatetime er)],
                      ODict [(''user_id'', uid), (''scopes'', PRef (length (heap s) + 3)),
                             (''access_token_hash'', PStr (H a)),
                             (''type'', PStr ''refresh''),
                             (''expires_at'', PStr (isoformat er))]],
                  store := (store s)(H a \<mapsto> length (heap s) + 2,
                                     H r \<mapsto> length (heap s) + 5)\<rparr>)"
  using assms
  by (simp add: generate_token_def scopes_or_empty_def alloc_def storage_set_def
      lookup_obj_def nth_append list_update_append truthy_append Let_def
      eval_nat_numeral)

lemma validate_token_stored:
  assumes "store s (H token) = Some c"
    and "lookup_obj (heap s) c = Some (ODict d)"
    and "map_of d ''expires_at'' = Some (PStr (isoformat e))"
    and "valid_datetime e"
    and "dict_get d ''type'' = PStr ''access''"
    and "\<not> dt_less e now"
  shows "validate_token H now token s =
           Inr (Some (length (heap s)),
                s\<lparr>heap := heap s @ [ODict (AList.update ''expires_at'' (PDatetime e) d)]\<rparr>)"
proof -
  let ?d = "AList.update ''expires_at'' (PDatetime e) d"
  have "dict_get ?d ''type'' = PStr ''access''" "dict_get ?d ''expires_at'' = PDatetime e"
    using assms(5) by (simp_all add: dict_get_def update_conv)
  moreover have "?d \<noteq> []"
    using assms(3) by (cases d) auto
  ultimately show ?thesis
    using assms(6) storage_get_stored [OF assms(1-4)]
    by (simp add: validate_token_def lookup_obj_def py_lt_datetime_def Let_def)
qed


lemma generate_token_succeeds:
  assumes "dt_add_seconds now (token_ttl m) = Inr ea"
    and "dt_add_seconds now (refresh_ttl m) = Inr er"
  shows "\<exists>s1 ca cr.
           generate_token H m now a r uid scopes s =
             Inr (\<lparr>pair_access_token = a, pair_refresh_token = r,
                    expires_in = token_ttl m, token_type = ''Bearer''\<rparr>, s1)
           \<and> store s1 = (store s)(H a \<mapsto> ca, H r \<mapsto> cr)
           \<and> take (length (heap s)) (heap s1) = heap s"
  using assms
  by (auto simp: generate_token_def scopes_or_empty_def alloc_def storage_set_def
      lookup_obj_def nth_append list_update_append Let_def)

lemma generate_token_effect:
  assumes "dt_add_seconds now (token_ttl m) = Inr ea"
    and "dt_add_seconds now (refresh_ttl m) = Inr er"
    and "valid_val (heap s) scopes"
  shows "\<exists>s1 ca cr sc1 sc2.
           generate_token H m now a r uid scopes s =
             Inr (\<lparr>pair_access_token = a, pair_refresh_token = r,
                    expires_in = token_ttl m, token_type = ''Bearer''\<rparr>, s1)
           \<and> store s1 = (store s)(H a \<mapsto> ca, H r \<mapsto> cr)
           \<and> lookup_obj (heap s1) ca =
               Some (ODict [(''user_id'', uid), (''scopes'', sc1), (''type'', PStr ''access''),
                            (''expires_at'', PStr (isoformat ea))])
           \<and> lookup_obj (heap s1) cr =
               Some (ODict [(''user_id'', uid), (''scopes'', sc2),
                            (''access_token_hash'', PStr (H a)), (''type'', PStr ''refresh''),
                            (''expires_at'', PStr (isoformat er))])
           \<and> take (length (heap s)) (heap s1) = heap s"
proof (cases "truthy (heap s) scopes")
  case True
  obtain s1 where "generate_token H m now a r uid scopes s =
        Inr (\<lparr>pair_access_token = a, pair_refresh_token = r, expires_in = token_ttl m,
               token_type = ''Bearer''\<rparr>, s1)"
    and "store s1 = (store s)(H a \<mapsto> length (heap s) + 1, H r \<mapsto> length (heap s) + 3)"
    and "lookup_obj (heap s1) (length (heap s) + 1) =
           Some (ODict [(''user_id'', uid), (''scopes'', scopes), (''type'', PStr ''access''),
                        (''expires_at'', PStr (isoformat ea))])"
    and "lookup_obj (heap s1) (length (heap s) + 3) =
           Some (ODict [(''user_id'', uid), (''scopes'', scopes),
                        (''access_token_hash'', PStr (H a)), (''type'', PStr ''refresh''),
                        (''expires_at'', PStr (isoformat er))])"
    and "take (length (heap s)) (heap s1) = heap s"
    using generate_token_truthy [OF assms True, of H a r uid]
    by (simp add: lookup_obj_def nth_append)
  then show ?thesis
    by blast
next
  case False
  obtain s1 where "generate_token H m now a r uid scopes s =
        Inr (\<lparr>pair_access_token = a, pair_refresh_token = r, expires_in = token_ttl m,
               token_type = ''Bearer''\<rparr>, s1)"
    and "store s1 = (store s)(H a \<mapsto> length (heap s) + 2, H r \<mapsto> length (heap s) + 5)"
    and "lookup_obj (heap s1) (length (heap s) + 2) =
           Some (ODict [(''user_id'', uid), (''scopes'', PRef (length (heap s))),
                        (''type'', PStr ''access''), (''expires_at'', PStr (isoformat ea))])"
    and "lookup_obj (heap s1) (length (heap s) + 5) =
           Some (ODict [(''user_id'', uid), (''scopes'', PRef (length (heap s) + 3)),
                        (''access_token_hash'', PStr (H a)), (''type'', PStr ''refresh''),
                        (''expires_at'', PStr (isoformat er))])"
    and "take (length (heap s)) (heap s1) = heap s"
    using generate_token_falsy [OF assms False, of H a r uid]
    by (simp add: lookup_obj_def nth_append)
  then show ?thesis
    by blast
qed


section \<open>Refreshing and revoking a stored record\<close>

lemma lookup_obj_append: "lookup_obj h a = Some x \<Longrightarrow> lookup_obj (h @ ys) a = Some x"
  by (auto simp: lookup_obj_def nth_append split: if_splits)

lemma validate_token_absent:
  "store s (H token) = None \<Longrightarrow> validate_token H now token s = Inr (None, s)"
  by (simp add: validate_token_def storage_get_absent)

lemma refresh_token_absent:
  "store s (H token) = None \<Longrightarrow> refresh_token H m now now' a r token s = Inr (None, s)"
  by (simp add: refresh_token_def storage_get_absent)

lemma generate_token_Inr_store:
  assumes "generate_token H m now a r uid scopes s = Inr (pair, s1)"
  shows "\<exists>ca cr. store s1 = (store s)(H a \<mapsto> ca, H r \<mapsto> cr)"
proof -
  obtain ea er where "dt_add_seconds now (token_ttl m) = Inr ea"
    and "dt_add_seconds now (refresh_ttl m) = Inr er"
    using assms by (auto simp: generate_token_def Let_def split: sum.splits)
  then show ?thesis
    using generate_token_succeeds [of now m ea er H a r uid scopes s] assms by auto
qed

lemma refresh_token_success_store:
  assumes "storage_get (H rtok) s = Inr (Some rd, s0)"
    and "lookup_obj (heap s0) rd = Some (ODict rec)"
    and "dict_get rec ''access_token_hash'' = PStr ah"
    and "ah \<noteq> []"
    and "refresh_token H m now now' a2 r2 rtok s = Inr (Some pair, s1)"
  shows "\<exists>ca cr. store s1 = (store s)(ah := None, H rtok := None, H a2 \<mapsto> ca, H r2 \<mapsto> cr)"
proof -
  have st: "store s0 = store s"
    using storage_get_frame [OF assms(1)] by simp
  obtain uid scopes h where
    "generate_token H m now' a2 r2 uid scopes
       (storage_delete (H rtok) (storage_delete ah s0)\<lparr>heap := h\<rparr>) = Inr (pair, s1)"
    using assms
    by (auto simp: refresh_token_def Let_def storage_delete_val_def alloc_def
        split: if_splits sum.splits option.splits bool.splits prod.splits)
  from generate_token_Inr_store [OF this] show ?thesis
    using st by (simp add: storage_delete_def)
qed

lemma revoke_token_stored_access:
  assumes "store s (H token) = Some c"
    and "lookup_obj (heap s) c = Some (ODict d)"
    and "map_of d ''expires_at'' = Some (PStr (isoformat e))"
    and "valid_datetime e"
    and "dict_get d ''type'' = PStr ''access''"
  shows "revoke_token H token s =
           Inr (True, storage_delete (H token)
                  (s\<lparr>heap := heap s @ [ODict (AList.update ''expires_at'' (PDatetime e) d)]\<rparr>))"
proof -
  let ?d = "AList.update ''expires_at'' (PDatetime e) d"
  have "dict_get ?d ''type'' = PStr ''access''"
    using assms(5) by (simp add: dict_get_def update_conv)
  moreover have "?d \<noteq> []"
    using assms(3) by (cases d) auto
  ultimately show ?thesis
    using storage_get_stored [OF assms(1-4)]
    by (simp add: revoke_token_def lookup_obj_new Let_def)
qed

lemma revoke_token_stored_refresh:
  assumes "store s (H token) = Some c"
    and "lookup_obj (heap s) c = Some (ODict d)"
    and "map_of d ''expires_at'' = Some (PStr (isoformat e))"
    and "valid_datetime e"
    and "dict_get d ''type'' = PStr ''refresh''"
    and "dict_get d ''access_token_hash'' = PStr ah"
    and "ah \<noteq> []"
  shows "revoke_token H token s =
           Inr (True, storage_delete (H token) (storage_delete ah
                  (s\<lparr>heap := heap s @ [ODict (AList.update ''expires_at'' (PDatetime e) d)]\<rparr>)))"
proof -
  let ?d = "AList.update ''expires_at'' (PDatetime e) d"
  have "dict_get ?d ''type'' = PStr ''refresh''" "dict_get ?d ''access_token_hash'' = PStr ah"
    using assms(5,6) by (simp_all add: dict_get_def update_conv)
  moreover have "?d \<noteq> []"
    using assms(3) by (cases d) auto
  ultimately show ?thesis
    using storage_get_stored [OF assms(1-4)] assms(7)
    by (simp add: revoke_token_def lookup_obj_new Let_def storage_delete_val_def)
qed

lemma refresh_token_stored_succeeds:
  assumes "store s (H token) = Some c"
    and "lookup_obj (heap s) c = Some (ODict d)"
    and "map_of d ''expires_at'' = Some (PStr (isoformat e))"
    and "valid_datetime e"
    and "dict_get d ''type'' = PStr ''refresh''"
    and "\<not> dt_less e now"
    and "dict_get d ''access_token_hash'' = PStr ah"
    and "map_of d ''user_id'' = Some uid"
    and "dt_add_seconds now' (token_ttl m) = Inr ea"
    and "dt_add_seconds now' (refresh_ttl m) = Inr er"
  shows "\<exists>s1. refresh_token H m now now' new_a new_r token s =
           Inr (Some \<lparr>pair_access_token = new_a, pair_refresh_token = new_r,
                       expires_in = token_ttl m, token_type = ''Bearer''\<rparr>, s1)"
proof -
  let ?d = "AList.update ''expires_at'' (PDatetime e) d"
  have d: "dict_get ?d ''type'' = PStr ''refresh''"
    "dict_get ?d ''access_token_hash'' = PStr ah"
    "dict_get ?d ''expires_at'' = PDatetime e"
    "map_of ?d ''user_id'' = Some uid"
    using assms(5,7,8) by (simp_all add: dict_get_def update_conv)
  have ne: "?d \<noteq> []"
    using assms(3) by (cases d) auto
  have g: "\<exists>s1. (case generate_token H m now' new_a new_r uid sc s' of
                    Inl err \<Rightarrow> Inl err
                  | Inr (pair, s5) \<Rightarrow> Inr (Some pair, s5)) =
             Inr (Some \<lparr>pair_access_token = new_a, pair_refresh_token = new_r,
                         expires_in = token_ttl m, token_type = ''Bearer''\<rparr>, s1)" for sc s'
    using generate_token_succeeds [OF assms(9,10), of H new_a new_r uid sc s'] by auto
  show ?thesis
    using storage_get_stored [OF assms(1-4)] d ne assms(6)
    apply (simp add: refresh_token_def lookup_obj_new Let_def py_lt_datetime_def alloc_def
        storage_delete_val_def)
    apply (intro conjI impI g)
    done
qed


section \<open>The worked example, refreshed\<close>

lemma example_valid:
  "valid_datetime example_access_expires" "valid_datetime example_refresh_expires"
  by (rule dt_add_seconds_valid [OF example_add_access],
      rule dt_add_seconds_valid [OF example_add_refresh])

lemma example_ttl: "token_ttl example_manager = 3600" "refresh_ttl example_manager = 86400"
  by (simp_all add: example_manager_def)

lemma issued_refresh:
  "refresh_token example_hash example_manager example_now example_now ''A2'' ''R2'' ''R''
     issued_state
   = Inr (Some \<lparr>pair_access_token = ''A2'', pair_refresh_token = ''R2'',
                 expires_in = 3600, token_type = ''Bearer''\<rparr>, refreshed_state)"
  by (simp add: refresh_token_def storage_get_def issued_state_def lookup_obj_def alloc_def
      fromisoformat_isoformat example_valid example_refresh_record_def
      example_access_record_def example_refresh_record2_def
      generate_token_truthy [OF example_add_access example_add_refresh]
      valid_val_def Let_def dict_get_def py_lt_datetime_def example_times_less
      storage_delete_val_def storage_delete_def example_hash_simps refreshed_state_def
      example_ttl eval_nat_numeral)



section \<open>What a caller shares with the storage\<close>

lemma storage_set_fresh_dict:
  assumes "lookup_obj (heap s) v = Some (ODict d)"
    and "storage_set key v s = Inr s1"
  shows "store s1 key = Some (length (heap s)) \<and> v < length (heap s)
         \<and> lookup_obj (heap s1) v = Some (ODict d)"
  using assms storage_set_state [OF assms(1), of key]
  by (auto simp: lookup_obj_def nth_append split: if_splits)

lemma stored_state_get:
  "storage_get ''k'' stored_state =
     Inr (Some 3,
          stored_state\<lparr>heap := heap stored_state @
            [ODict [(''user_id'', PStr ''u1''), (''scopes'', PRef 0),
                    (''type'', PStr ''access''), (''expires_at'', PDatetime example_now)]]\<rparr>)"
  by (simp add: storage_get_def stored_state_def lookup_obj_def alloc_def
      fromisoformat_isoformat valid_example_now)

lemma stored_state_append_get:
  "storage_get ''k'' (list_append 0 ''admin'' stored_state) =
     Inr (Some 3,
          \<lparr>heap = [OList [''read'', ''admin''],
                   ODict [(''user_id'', PStr ''u1''), (''scopes'', PRef 0),
                          (''type'', PStr ''access''), (''expires_at'', PDatetime example_now)],
                   ODict [(''user_id'', PStr ''u1''), (''scopes'', PRef 0),
                          (''type'', PStr ''access''),
                          (''expires_at'', PStr (isoformat example_now))],
                   ODict [(''user_id'', PStr ''u1''), (''scopes'', PRef 0),
                          (''type'', PStr ''access''), (''expires_at'', PDatetime example_now)]],
            store = [''k'' \<mapsto> 2]\<rparr>)"
  by (simp add: storage_get_def list_append_def stored_state_def lookup_obj_def alloc_def
      fromisoformat_isoformat valid_example_now)

section \<open>The worked example is what generate_token produces\<close>

lemma scopes_state_generate:
  "generate_token example_hash example_manager example_now ''A'' ''R'' (PStr ''u1'') (PRef 0)
     scopes_state
   = Inr (\<lparr>pair_access_token = ''A'', pair_refresh_token = ''R'', expires_in = 3600,
            token_type = ''Bearer''\<rparr>, issued_state)"
  by (simp add: generate_token_truthy [OF example_add_access example_add_refresh]
      valid_val_def scopes_state_def issued_state_def lookup_obj_def
      example_access_record_def example_refresh_record_def example_ttl eval_nat_numeral)

section \<open>The worked example with one of its two records removed\<close>

lemma only_refresh_get:
  "storage_get (example_hash ''R'') (storage_delete (example_hash ''A'') issued_state) =
     Inr (Some 5, (storage_delete (example_hash ''A'') issued_state)
            \<lparr>heap := heap (storage_delete (example_hash ''A'') issued_state)
                      @ [ODict example_refresh_record]\<rparr>)"
proof -
  let ?s = "storage_delete (example_hash ''A'') issued_state"
  have "storage_get (example_hash ''R'') ?s =
          Inr (Some (length (heap ?s)),
               ?s\<lparr>heap := heap ?s @
                 [ODict (AList.update ''expires_at'' (PDatetime example_refresh_expires)
                    (AList.update ''expires_at'' (PStr (isoformat example_refresh_expires))
                       example_refresh_record))]\<rparr>)"
    by (rule storage_get_stored [where c = 4])
      (simp_all add: issued_state_def storage_delete_def example_hash_simps lookup_obj_def
        example_refresh_record_def example_valid)
  then show ?thesis
    by (simp add: issued_state_def storage_delete_def example_refresh_record_def)
qed

lemma only_access_get:
  "storage_get (example_hash ''A'') (storage_delete (example_hash ''R'') issued_state) =
     Inr (Some 5, (storage_delete (example_hash ''R'') issued_state)
            \<lparr>heap := heap (storage_delete (example_hash ''R'') issued_state)
                      @ [ODict example_access_record]\<rparr>)"
proof -
  let ?s = "storage_delete (example_hash ''R'') issued_state"
  have "storage_get (example_hash ''A'') ?s =
          Inr (Some (length (heap ?s)),
               ?s\<lparr>heap := heap ?s @
                 [ODict (AList.update ''expires_at'' (PDatetime example_access_expires)
                    (AList.update ''expires_at'' (PStr (isoformat example_access_expires))
                       example_access_record))]\<rparr>)"
    by (rule storage_get_stored [where c = 2])
      (simp_all add: issued_state_def storage_delete_def example_hash_simps lookup_obj_def
        example_access_record_def example_valid)
  then show ?thesis
    by (simp add: issued_state_def storage_delete_def example_access_record_def)
qed

lemma only_copy_lookup:
  "lookup_obj (heap ((storage_delete k issued_state)
      \<lparr>heap := heap (storage_delete k issued_state) @ [ODict d]\<rparr>)) 5 = Some (ODict d)"
  by (simp add: issued_state_def storage_delete_def lookup_obj_def)

section \<open>The claims\<close>

text \<open>
  C6. For every plaintext whose hash has no record in the storage (never issued, already
  revoked or already consumed), \<^verbatim>\<open>revoke_token\<close> returns \<^verbatim>\<open>False\<close>, raises no
  error and leaves the state unchanged: the result is \<open>Inr\<close>, and the state that comes
  back is the state that went in.
\<close>

theorem revoke_token_absent:
  "store s (H token) = None \<Longrightarrow> revoke_token H token s = Inr (False, s)"
  by (simp add: revoke_token_def storage_get_absent)

theorem revoke_token_absent_witness:
  "store empty_state (example_hash ''never issued'') = None
   \<and> revoke_token example_hash ''never issued'' empty_state = Inr (False, empty_state)"
proof -
  have h: "store empty_state (example_hash ''never issued'') = None"
    by (simp add: empty_state_def)
  show ?thesis
    using h
      revoke_token_absent [where s = empty_state and H = example_hash
        and token = "''never issued''", OF h]
    by simp
qed

text \<open>
  C8. For every record with a timestamp under \<^verbatim>\<open>'expires_at'\<close>, storing the record with
  \<^verbatim>\<open>set\<close> and reading it back with \<^verbatim>\<open>get\<close> succeeds and yields the same
  timestamp, microseconds included; the record read back has the very entries of the
  record stored. (\<open>valid_datetime\<close> holds of every timestamp that Python can build.)
\<close>

theorem storage_roundtrip_expires_at:
  assumes "lookup_obj (heap s) v = Some (ODict d)"
    and "map_of d ''expires_at'' = Some (PDatetime t)"
    and "valid_datetime t"
  shows "\<exists>s1 r s2 d'.
           storage_set key v s = Inr s1
           \<and> storage_get key s1 = Inr (Some r, s2)
           \<and> lookup_obj (heap s2) r = Some (ODict d')
           \<and> map_of d' ''expires_at'' = Some (PDatetime t)
           \<and> d' = d"
proof -
  let ?st = "AList.update ''expires_at'' (PStr (isoformat t)) d"
  let ?s1 = "s\<lparr>heap := heap s @ [ODict ?st], store := (store s)(key \<mapsto> length (heap s))\<rparr>"
  have set: "storage_set key v s = Inr ?s1"
    using storage_set_state [OF assms(1), of key] assms(2) by simp
  have "storage_get key ?s1 =
          Inr (Some (length (heap ?s1)),
               ?s1\<lparr>heap := heap ?s1 @ [ODict (AList.update ''expires_at'' (PDatetime t) ?st)]\<rparr>)"
    by (rule storage_get_stored [where c = "length (heap s)"])
      (simp_all add: lookup_obj_def update_conv assms(3))
  moreover have "AList.update ''expires_at'' (PDatetime t) ?st = d"
    using assms(2) by (simp add: update_triv)
  ultimately show ?thesis
    using set assms(2) by (simp add: lookup_obj_def nth_append)
qed

theorem storage_roundtrip_expires_at_witness:
  "lookup_obj (heap caller_state) 1 =
     Some (ODict [(''user_id'', PStr ''u1''), (''scopes'', PRef 0),
                  (''type'', PStr ''access''), (''expires_at'', PDatetime example_now)])
   \<and> map_of [(''user_id'', PStr ''u1''), (''scopes'', PRef 0),
              (''type'', PStr ''access''), (''expires_at'', PDatetime example_now)]
        ''expires_at'' = Some (PDatetime example_now)
   \<and> valid_datetime example_now
   \<and> (\<exists>s1 r s2 d'.
         storage_set ''k'' 1 caller_state = Inr s1
         \<and> storage_get ''k'' s1 = Inr (Some r, s2)
         \<and> lookup_obj (heap s2) r = Some (ODict d')
         \<and> map_of d' ''expires_at'' = Some (PDatetime example_now)
         \<and> d' = [(''user_id'', PStr ''u1''), (''scopes'', PRef 0),
                  (''type'', PStr ''access''), (''expires_at'', PDatetime example_now)])"
proof -
  let ?d = "[(''user_id'', PStr ''u1''), (''scopes'', PRef 0),
             (''type'', PStr ''access''), (''expires_at'', PDatetime example_now)]"
  have h1: "lookup_obj (heap caller_state) 1 = Some (ODict ?d)"
    by (simp add: caller_state_def lookup_obj_def)
  have h2: "map_of ?d ''expires_at'' = Some (PDatetime example_now)"
    by simp
  show ?thesis
    using h1 h2 valid_example_now
      storage_roundtrip_expires_at [OF h1 h2 valid_example_now, of "''k''"]
    by blast
qed

text \<open>
  C1, as the code has it. For every stored access record whose \<^verbatim>\<open>expires_at\<close> is strictly
  before the current time, \<^verbatim>\<open>validate_token\<close> on its plaintext returns invalid and
  deletes the record, so that a following \<^verbatim>\<open>get\<close> on that hash returns absent. (The
  comparison is \<^verbatim>\<open>expires_at < now\<close>: a record whose \<^verbatim>\<open>expires_at\<close> equals the current
  time is still valid, see the example below.)
\<close>

theorem validate_token_expired:
  assumes "storage_get (H token) s = Inr (Some td, s1)"
    and "lookup_obj (heap s1) td = Some (ODict rec)"
    and "dict_get rec ''type'' = PStr ''access''"
    and "dict_get rec ''expires_at'' = PDatetime e"
    and "dt_less e now"
  shows "validate_token H now token s = Inr (None, storage_delete (H token) s1)
         \<and> storage_get (H token) (storage_delete (H token) s1)
             = Inr (None, storage_delete (H token) s1)"
proof -
  have "rec \<noteq> []"
    using assms(3) by (rule type_nonempty)
  then have "validate_token H now token s = Inr (None, storage_delete (H token) s1)"
    using assms by (simp add: validate_token_def py_lt_datetime_def Let_def)
  moreover have "store (storage_delete (H token) s1) (H token) = None"
    by (simp add: storage_delete_def)
  ultimately show ?thesis
    by (simp add: storage_get_absent)
qed

theorem validate_token_expired_witness:
  "storage_get (example_hash ''A'') issued_state =
     Inr (Some 5, issued_state\<lparr>heap := heap issued_state @ [ODict example_access_record]\<rparr>)
   \<and> lookup_obj (heap (issued_state\<lparr>heap := heap issued_state @ [ODict example_access_record]\<rparr>)) 5
       = Some (ODict example_access_record)
   \<and> dict_get example_access_record ''type'' = PStr ''access''
   \<and> dict_get example_access_record ''expires_at'' = PDatetime example_access_expires
   \<and> dt_less example_access_expires example_refresh_expires
   \<and> validate_token example_hash example_refresh_expires ''A'' issued_state
       = Inr (None, storage_delete (example_hash ''A'')
                      (issued_state\<lparr>heap := heap issued_state @ [ODict example_access_record]\<rparr>))
   \<and> storage_get (example_hash ''A'')
         (storage_delete (example_hash ''A'')
            (issued_state\<lparr>heap := heap issued_state @ [ODict example_access_record]\<rparr>))
       = Inr (None, storage_delete (example_hash ''A'')
                      (issued_state\<lparr>heap := heap issued_state @ [ODict example_access_record]\<rparr>))"
proof -
  have h3: "dict_get example_access_record ''type'' = PStr ''access''"
    and h4: "dict_get example_access_record ''expires_at'' = PDatetime example_access_expires"
    by (simp_all add: dict_get_def example_access_record_def)
  note h2 = issued_copy_lookup [of example_access_record]
  show ?thesis
    using issued_get_access h2 h3 h4 example_times_less(1)
      validate_token_expired [where H = example_hash and token = "''A''",
        OF issued_get_access h2 h3 h4 example_times_less(1)]
    by blast
qed

text \<open>
  At the very instant of expiry the token still validates. \<^verbatim>\<open>generate_token\<close> at
  \<open>example_now\<close> leads to \<open>issued_state\<close>, whose access record expires at
  \<open>example_access_expires\<close>; \<^verbatim>\<open>validate_token\<close> called at exactly that reading of
  the clock returns the record (address 5) and deletes nothing.
\<close>

theorem validate_token_at_expiry_counterexample:
  "generate_token example_hash example_manager example_now ''A'' ''R'' (PStr ''u1'') (PRef 0)
     scopes_state
   = Inr (\<lparr>pair_access_token = ''A'', pair_refresh_token = ''R'', expires_in = 3600,
            token_type = ''Bearer''\<rparr>, issued_state)
   \<and> storage_get (example_hash ''A'') issued_state =
       Inr (Some 5, issued_state\<lparr>heap := heap issued_state @ [ODict example_access_record]\<rparr>)
   \<and> dict_get example_access_record ''type'' = PStr ''access''
   \<and> dict_get example_access_record ''expires_at'' = PDatetime example_access_expires
   \<and> validate_token example_hash example_access_expires ''A'' issued_state
       = Inr (Some 5, issued_state\<lparr>heap := heap issued_state @ [ODict example_access_record]\<rparr>)"
proof -
  have h3: "dict_get example_access_record ''type'' = PStr ''access''"
    and h4: "dict_get example_access_record ''expires_at'' = PDatetime example_access_expires"
    by (simp_all add: dict_get_def example_access_record_def)
  show ?thesis
    using scopes_state_generate issued_get_access h3 h4
      validate_token_valid [where H = example_hash and token = "''A''",
        OF issued_get_access issued_copy_lookup h3 h4 example_times_less(2)]
    by simp
qed

text \<open>
  C7. Deletion belongs to the expiry branch only. The two cases are independent of each
  other, each for any state and any token. Whenever \<^verbatim>\<open>validate_token\<close> is given a
  token whose record is of kind refresh, the result is invalid and the storage is
  unchanged; whenever \<^verbatim>\<open>refresh_token\<close> is given a token whose record is of kind
  access, the result is invalid and the storage is unchanged. Unchanged means that
  \<^verbatim>\<open>_store\<close> is the same and every object that existed before is the same (the only new
  object is the copy that \<^verbatim>\<open>get\<close> made). Both hold whether or not the record has
  expired, in particular when it has not, and whether or not the store holds any other
  record: the instance below runs each case on a state that holds the wrong-kind record
  alone.
\<close>

theorem wrong_kind_not_deleted:
  "(storage_get (H rtok) sv = Inr (Some rd, sv')
      \<and> lookup_obj (heap sv') rd = Some (ODict rrec)
      \<and> dict_get rrec ''type'' = PStr ''refresh''
    \<longrightarrow> validate_token H now rtok sv = Inr (None, sv')
        \<and> store sv' = store sv \<and> take (length (heap sv)) (heap sv') = heap sv)
   \<and> (storage_get (H atok) sf = Inr (Some ad, sf')
      \<and> lookup_obj (heap sf') ad = Some (ODict arec)
      \<and> dict_get arec ''type'' = PStr ''access''
    \<longrightarrow> refresh_token H m now now' new_access new_refresh atok sf = Inr (None, sf')
        \<and> store sf' = store sf \<and> take (length (heap sf)) (heap sf') = heap sf)"
proof (intro conjI impI)
  assume a: "storage_get (H rtok) sv = Inr (Some rd, sv')
      \<and> lookup_obj (heap sv') rd = Some (ODict rrec)
      \<and> dict_get rrec ''type'' = PStr ''refresh''"
  then show "validate_token H now rtok sv = Inr (None, sv')"
    by (simp add: validate_token_def Let_def)
  from a have "storage_get (H rtok) sv = Inr (Some rd, sv')"
    by simp
  from storage_get_frame [OF this]
  show "store sv' = store sv" "take (length (heap sv)) (heap sv') = heap sv"
    by simp_all
next
  assume a: "storage_get (H atok) sf = Inr (Some ad, sf')
      \<and> lookup_obj (heap sf') ad = Some (ODict arec)
      \<and> dict_get arec ''type'' = PStr ''access''"
  then show "refresh_token H m now now' new_access new_refresh atok sf = Inr (None, sf')"
    by (simp add: refresh_token_def Let_def)
  from a have "storage_get (H atok) sf = Inr (Some ad, sf')"
    by simp
  from storage_get_frame [OF this]
  show "store sf' = store sf" "take (length (heap sf)) (heap sf') = heap sf"
    by simp_all
qed

theorem wrong_kind_not_deleted_witness:
  "storage_get (example_hash ''R'') (storage_delete (example_hash ''A'') issued_state) =
     Inr (Some 5, (storage_delete (example_hash ''A'') issued_state)
            \<lparr>heap := heap (storage_delete (example_hash ''A'') issued_state)
                      @ [ODict example_refresh_record]\<rparr>)
   \<and> lookup_obj (heap ((storage_delete (example_hash ''A'') issued_state)
            \<lparr>heap := heap (storage_delete (example_hash ''A'') issued_state)
                      @ [ODict example_refresh_record]\<rparr>)) 5
       = Some (ODict example_refresh_record)
   \<and> dict_get example_refresh_record ''type'' = PStr ''refresh''
   \<and> validate_token example_hash example_now ''R''
         (storage_delete (example_hash ''A'') issued_state)
       = Inr (None, (storage_delete (example_hash ''A'') issued_state)
            \<lparr>heap := heap (storage_delete (example_hash ''A'') issued_state)
                      @ [ODict example_refresh_record]\<rparr>)
   \<and> store ((storage_delete (example_hash ''A'') issued_state)
            \<lparr>heap := heap (storage_delete (example_hash ''A'') issued_state)
                      @ [ODict example_refresh_record]\<rparr>)
       = store (storage_delete (example_hash ''A'') issued_state)
   \<and> take (length (heap (storage_delete (example_hash ''A'') issued_state)))
        (heap ((storage_delete (example_hash ''A'') issued_state)
            \<lparr>heap := heap (storage_delete (example_hash ''A'') issued_state)
                      @ [ODict example_refresh_record]\<rparr>))
       = heap (storage_delete (example_hash ''A'') issued_state)
   \<and> storage_get (example_hash ''A'') (storage_delete (example_hash ''R'') issued_state) =
       Inr (Some 5, (storage_delete (example_hash ''R'') issued_state)
            \<lparr>heap := heap (storage_delete (example_hash ''R'') issued_state)
                      @ [ODict example_access_record]\<rparr>)
   \<and> lookup_obj (heap ((storage_delete (example_hash ''R'') issued_state)
            \<lparr>heap := heap (storage_delete (example_hash ''R'') issued_state)
                      @ [ODict example_access_record]\<rparr>)) 5
       = Some (ODict example_access_record)
   \<and> dict_get example_access_record ''type'' = PStr ''access''
   \<and> refresh_token example_hash example_manager example_now example_now ''A2'' ''R2'' ''A''
         (storage_delete (example_hash ''R'') issued_state)
       = Inr (None, (storage_delete (example_hash ''R'') issued_state)
            \<lparr>heap := heap (storage_delete (example_hash ''R'') issued_state)
                      @ [ODict example_access_record]\<rparr>)
   \<and> store ((storage_delete (example_hash ''R'') issued_state)
            \<lparr>heap := heap (storage_delete (example_hash ''R'') issued_state)
                      @ [ODict example_access_record]\<rparr>)
       = store (storage_delete (example_hash ''R'') issued_state)
   \<and> take (length (heap (storage_delete (example_hash ''R'') issued_state)))
        (heap ((storage_delete (example_hash ''R'') issued_state)
            \<lparr>heap := heap (storage_delete (example_hash ''R'') issued_state)
                      @ [ODict example_access_record]\<rparr>))
       = heap (storage_delete (example_hash ''R'') issued_state)"
proof -
  have r3: "dict_get example_refresh_record ''type'' = PStr ''refresh''"
    by (simp add: dict_get_def example_refresh_record_def)
  have a3: "dict_get example_access_record ''type'' = PStr ''access''"
    by (simp add: dict_get_def example_access_record_def)
  note r2 = only_copy_lookup [of "example_hash ''A''" example_refresh_record]
  note a2 = only_copy_lookup [of "example_hash ''R''" example_access_record]
  show ?thesis
    using only_refresh_get r2 r3 only_access_get a2 a3
      wrong_kind_not_deleted [where H = example_hash and rtok = "''R''" and atok = "''A''"
        and sv = "storage_delete (example_hash ''A'') issued_state"
        and sf = "storage_delete (example_hash ''R'') issued_state"
        and rd = 5 and ad = 5
        and rrec = example_refresh_record and arec = example_access_record
        and sv' = "(storage_delete (example_hash ''A'') issued_state)
            \<lparr>heap := heap (storage_delete (example_hash ''A'') issued_state)
                      @ [ODict example_refresh_record]\<rparr>"
        and sf' = "(storage_delete (example_hash ''R'') issued_state)
            \<lparr>heap := heap (storage_delete (example_hash ''R'') issued_state)
                      @ [ODict example_access_record]\<rparr>"
        and now = example_now and now' = example_now and m = example_manager
        and new_access = "''A2''" and new_refresh = "''R2''"]
    by blast
qed

text \<open>
  C10. When \<^verbatim>\<open>refresh_token\<close> finds a refresh record that has expired, it deletes that
  record only: \<^verbatim>\<open>_store\<close> loses the key of the refresh token and nothing else, the
  linked access record (under the record's \<^verbatim>\<open>access_token_hash\<close>) stays, and no
  object that existed before is changed.
\<close>

theorem refresh_token_expired_frame:
  assumes "storage_get (H token) s = Inr (Some rd, s1)"
    and "lookup_obj (heap s1) rd = Some (ODict rec)"
    and "dict_get rec ''type'' = PStr ''refresh''"
    and "dict_get rec ''expires_at'' = PDatetime e"
    and "dt_less e now"
    and "dict_get rec ''access_token_hash'' = PStr ah"
    and "ah \<noteq> H token"
  shows "refresh_token H m now now' new_access new_refresh token s
           = Inr (None, storage_delete (H token) s1)
         \<and> store (storage_delete (H token) s1) = (store s)(H token := None)
         \<and> store (storage_delete (H token) s1) ah = store s ah
         \<and> take (length (heap s)) (heap (storage_delete (H token) s1)) = heap s"
proof -
  have fr: "store s1 = store s \<and> take (length (heap s)) (heap s1) = heap s"
    using assms(1) by (rule storage_get_frame)
  have "rec \<noteq> []"
    using assms(3) by (rule type_nonempty)
  then have "refresh_token H m now now' new_access new_refresh token s
               = Inr (None, storage_delete (H token) s1)"
    using assms(1-5) by (simp add: refresh_token_def py_lt_datetime_def Let_def)
  then show ?thesis
    using fr assms(7) by (simp add: storage_delete_def)
qed

theorem refresh_token_expired_frame_witness:
  "storage_get (example_hash ''R'') issued_state =
     Inr (Some 5, issued_state\<lparr>heap := heap issued_state @ [ODict example_refresh_record]\<rparr>)
   \<and> lookup_obj (heap (issued_state\<lparr>heap := heap issued_state @ [ODict example_refresh_record]\<rparr>)) 5
       = Some (ODict example_refresh_record)
   \<and> dict_get example_refresh_record ''type'' = PStr ''refresh''
   \<and> dict_get example_refresh_record ''expires_at'' = PDatetime example_refresh_expires
   \<and> dt_less example_refresh_expires example_later
   \<and> dict_get example_refresh_record ''access_token_hash'' = PStr (example_hash ''A'')
   \<and> example_hash ''A'' \<noteq> example_hash ''R''
   \<and> refresh_token example_hash example_manager example_later example_later ''A2'' ''R2'' ''R''
        issued_state
       = Inr (None, storage_delete (example_hash ''R'')
               (issued_state\<lparr>heap := heap issued_state @ [ODict example_refresh_record]\<rparr>))
   \<and> store (storage_delete (example_hash ''R'')
               (issued_state\<lparr>heap := heap issued_state @ [ODict example_refresh_record]\<rparr>))
       = (store issued_state)(example_hash ''R'' := None)
   \<and> store (storage_delete (example_hash ''R'')
               (issued_state\<lparr>heap := heap issued_state @ [ODict example_refresh_record]\<rparr>))
         (example_hash ''A'')
       = store issued_state (example_hash ''A'')
   \<and> take (length (heap issued_state))
        (heap (storage_delete (example_hash ''R'')
               (issued_state\<lparr>heap := heap issued_state @ [ODict example_refresh_record]\<rparr>)))
       = heap issued_state"
proof -
  have r3: "dict_get example_refresh_record ''type'' = PStr ''refresh''"
    and r4: "dict_get example_refresh_record ''expires_at'' = PDatetime example_refresh_expires"
    and r6: "dict_get example_refresh_record ''access_token_hash'' = PStr (example_hash ''A'')"
    by (simp_all add: dict_get_def example_refresh_record_def)
  have r7: "example_hash ''A'' \<noteq> example_hash ''R''"
    by (simp add: example_hash_simps)
  note r2 = issued_copy_lookup [of example_refresh_record]
  show ?thesis
    using issued_get_refresh r2 r3 r4 example_later_less r6 r7
      refresh_token_expired_frame [where H = example_hash and token = "''R''"
        and m = example_manager and now' = example_later
        and new_access = "''A2''" and new_refresh = "''R2''",
        OF issued_get_refresh r2 r3 r4 example_later_less r6 r7]
    by blast
qed

text \<open>
  C3. For every user id and every scopes list, the access token that
  \<^verbatim>\<open>generate_token(user_id, scopes)\<close> returns validates at once: \<^verbatim>\<open>validate_token\<close>
  returns a record with the same \<^verbatim>\<open>user_id\<close> and with the scopes of the list that was
  passed. What the claim takes from the environment is written out: both expiry times are
  representable (else \<^verbatim>\<open>generate_token\<close> raises \<^verbatim>\<open>OverflowError\<close> and returns no
  token), the two tokens drawn hash to different keys, and "at once" means that the clock
  read by \<^verbatim>\<open>validate_token\<close> has not passed the expiry of the access token.
\<close>

theorem generate_then_validate:
  assumes "lookup_obj (heap s) la = Some (OList xs)"
    and "dt_add_seconds now (token_ttl m) = Inr ea"
    and "dt_add_seconds now (refresh_ttl m) = Inr er"
    and "H a \<noteq> H r"
    and "\<not> dt_less ea now'"
  shows "\<exists>pair s1 ctx s2 rec sa.
           generate_token H m now a r (PStr uid) (PRef la) s = Inr (pair, s1)
           \<and> pair_access_token pair = a
           \<and> validate_token H now' (pair_access_token pair) s1 = Inr (Some ctx, s2)
           \<and> lookup_obj (heap s2) ctx = Some (ODict rec)
           \<and> dict_get rec ''user_id'' = PStr uid
           \<and> dict_get rec ''scopes'' = PRef sa
           \<and> lookup_obj (heap s2) sa = Some (OList xs)"
proof -
  have v: "valid_val (heap s) (PRef la)"
    using assms(1) by (simp add: valid_val_def lookup_obj_def split: if_splits)
  have ve: "valid_datetime ea"
    using assms(2) by (rule dt_add_seconds_valid)
  show ?thesis
  proof (cases "truthy (heap s) (PRef la)")
    case True
    let ?d = "[(''user_id'', PStr uid), (''scopes'', PRef la), (''type'', PStr ''access''),
               (''expires_at'', PStr (isoformat ea))]"
    note g = generate_token_truthy [OF assms(2,3) v True, of H a r "PStr uid"]
    obtain s1 where s1: "generate_token H m now a r (PStr uid) (PRef la) s =
        Inr (\<lparr>pair_access_token = a, pair_refresh_token = r, expires_in = token_ttl m,
               token_type = ''Bearer''\<rparr>, s1)"
      and st: "store s1 (H a) = Some (length (heap s) + 1)"
      and hp: "lookup_obj (heap s1) (length (heap s) + 1) = Some (ODict ?d)"
      and la: "lookup_obj (heap s1 @ [ob]) la = Some (OList xs)" for ob
      using g assms(1,4) by (simp add: lookup_obj_def nth_append split: if_splits)
    have "validate_token H now' a s1 =
            Inr (Some (length (heap s1)),
                 s1\<lparr>heap := heap s1 @ [ODict (AList.update ''expires_at'' (PDatetime ea) ?d)]\<rparr>)"
      using st hp _ ve _ assms(5) by (rule validate_token_stored) (simp_all add: dict_get_def)
    then show ?thesis
      using s1 la by (simp add: lookup_obj_new dict_get_def)
  next
    case False
    then have xs: "xs = []"
      using assms(1) by simp
    let ?d = "[(''user_id'', PStr uid), (''scopes'', PRef (length (heap s))),
               (''type'', PStr ''access''), (''expires_at'', PStr (isoformat ea))]"
    note g = generate_token_falsy [OF assms(2,3) v False, of H a r "PStr uid"]
    obtain s1 where s1: "generate_token H m now a r (PStr uid) (PRef la) s =
        Inr (\<lparr>pair_access_token = a, pair_refresh_token = r, expires_in = token_ttl m,
               token_type = ''Bearer''\<rparr>, s1)"
      and st: "store s1 (H a) = Some (length (heap s) + 2)"
      and hp: "lookup_obj (heap s1) (length (heap s) + 2) = Some (ODict ?d)"
      and la: "lookup_obj (heap s1 @ [ob]) (length (heap s)) = Some (OList [])" for ob
      using g assms(1,4) by (simp add: lookup_obj_def nth_append split: if_splits)
    have "validate_token H now' a s1 =
            Inr (Some (length (heap s1)),
                 s1\<lparr>heap := heap s1 @ [ODict (AList.update ''expires_at'' (PDatetime ea) ?d)]\<rparr>)"
      using st hp _ ve _ assms(5) by (rule validate_token_stored) (simp_all add: dict_get_def)
    then show ?thesis
      using s1 la xs by (simp add: lookup_obj_new dict_get_def)
  qed
qed


theorem generate_then_validate_witness:
  "lookup_obj (heap scopes_state) 0 = Some (OList [''read''])
   \<and> dt_add_seconds example_now (token_ttl example_manager) = Inr example_access_expires
   \<and> dt_add_seconds example_now (refresh_ttl example_manager) = Inr example_refresh_expires
   \<and> example_hash ''A'' \<noteq> example_hash ''R''
   \<and> \<not> dt_less example_access_expires example_now
   \<and> (\<exists>pair s1 ctx s2 rec sa.
         generate_token example_hash example_manager example_now ''A'' ''R'' (PStr ''u1'')
           (PRef 0) scopes_state = Inr (pair, s1)
         \<and> pair_access_token pair = ''A''
         \<and> validate_token example_hash example_now (pair_access_token pair) s1
             = Inr (Some ctx, s2)
         \<and> lookup_obj (heap s2) ctx = Some (ODict rec)
         \<and> dict_get rec ''user_id'' = PStr ''u1''
         \<and> dict_get rec ''scopes'' = PRef sa
         \<and> lookup_obj (heap s2) sa = Some (OList [''read'']))"
proof -
  have h1: "lookup_obj (heap scopes_state) 0 = Some (OList [''read''])"
    by (simp add: scopes_state_def lookup_obj_def)
  have h4: "example_hash ''A'' \<noteq> example_hash ''R''"
    by (simp add: example_hash_simps)
  show ?thesis
    using h1 example_add_access example_add_refresh h4 example_times_less(3)
      generate_then_validate [where H = example_hash and a = "''A''" and r = "''R''"
        and uid = "''u1''",
        OF h1 example_add_access example_add_refresh h4 example_times_less(3)]
    by blast
qed

text \<open>
  C9. \<^verbatim>\<open>generate_token\<close> does not look at \<^verbatim>\<open>user_id\<close>: for every string, the empty
  one included, it returns a pair (the only errors it can raise come from the expiry
  arithmetic), it writes the access and the refresh record with that \<^verbatim>\<open>user_id\<close>
  unchanged, and the access token validates to a record with that same \<^verbatim>\<open>user_id\<close>.
  The instance below takes the empty string, written \<open>[]\<close>.
\<close>

theorem generate_token_any_user_id:
  assumes "dt_add_seconds now (token_ttl m) = Inr ea"
    and "dt_add_seconds now (refresh_ttl m) = Inr er"
    and "valid_val (heap s) scopes"
    and "H a \<noteq> H r"
    and "\<not> dt_less ea now'"
  shows "\<exists>pair s1 ca cr da dr ctx s2 rec.
           generate_token H m now a r (PStr uid) scopes s = Inr (pair, s1)
           \<and> store s1 (H a) = Some ca \<and> lookup_obj (heap s1) ca = Some (ODict da)
           \<and> map_of da ''user_id'' = Some (PStr uid)
           \<and> map_of da ''type'' = Some (PStr ''access'')
           \<and> store s1 (H r) = Some cr \<and> lookup_obj (heap s1) cr = Some (ODict dr)
           \<and> map_of dr ''user_id'' = Some (PStr uid)
           \<and> map_of dr ''type'' = Some (PStr ''refresh'')
           \<and> validate_token H now' (pair_access_token pair) s1 = Inr (Some ctx, s2)
           \<and> lookup_obj (heap s2) ctx = Some (ODict rec)
           \<and> map_of rec ''user_id'' = Some (PStr uid)"
proof -
  obtain s1 ca cr sc1 sc2 where
    g: "generate_token H m now a r (PStr uid) scopes s =
          Inr (\<lparr>pair_access_token = a, pair_refresh_token = r, expires_in = token_ttl m,
                 token_type = ''Bearer''\<rparr>, s1)"
    and st: "store s1 = (store s)(H a \<mapsto> ca, H r \<mapsto> cr)"
    and la: "lookup_obj (heap s1) ca =
               Some (ODict [(''user_id'', PStr uid), (''scopes'', sc1),
                            (''type'', PStr ''access''), (''expires_at'', PStr (isoformat ea))])"
    and lr: "lookup_obj (heap s1) cr =
               Some (ODict [(''user_id'', PStr uid), (''scopes'', sc2),
                            (''access_token_hash'', PStr (H a)), (''type'', PStr ''refresh''),
                            (''expires_at'', PStr (isoformat er))])"
    using generate_token_effect [OF assms(1-3), of H a r "PStr uid"] by blast
  let ?d = "[(''user_id'', PStr uid), (''scopes'', sc1), (''type'', PStr ''access''),
             (''expires_at'', PStr (isoformat ea))]"
  have sa: "store s1 (H a) = Some ca" and sr: "store s1 (H r) = Some cr"
    using st assms(4) by simp_all
  have "validate_token H now' a s1 =
          Inr (Some (length (heap s1)),
               s1\<lparr>heap := heap s1 @ [ODict (AList.update ''expires_at'' (PDatetime ea) ?d)]\<rparr>)"
    using sa la _ dt_add_seconds_valid [OF assms(1)] _ assms(5)
    by (rule validate_token_stored) (simp_all add: dict_get_def)
  then show ?thesis
    using g sa sr la lr by (simp add: lookup_obj_new)
qed

theorem generate_token_any_user_id_witness:
  "dt_add_seconds example_now (token_ttl example_manager) = Inr example_access_expires
   \<and> dt_add_seconds example_now (refresh_ttl example_manager) = Inr example_refresh_expires
   \<and> valid_val (heap empty_state) PNone
   \<and> example_hash ''A'' \<noteq> example_hash ''R''
   \<and> \<not> dt_less example_access_expires example_now
   \<and> (\<exists>pair s1 ca cr da dr ctx s2 rec.
         generate_token example_hash example_manager example_now ''A'' ''R'' (PStr [])
           PNone empty_state = Inr (pair, s1)
         \<and> store s1 (example_hash ''A'') = Some ca
         \<and> lookup_obj (heap s1) ca = Some (ODict da)
         \<and> map_of da ''user_id'' = Some (PStr [])
         \<and> map_of da ''type'' = Some (PStr ''access'')
         \<and> store s1 (example_hash ''R'') = Some cr
         \<and> lookup_obj (heap s1) cr = Some (ODict dr)
         \<and> map_of dr ''user_id'' = Some (PStr [])
         \<and> map_of dr ''type'' = Some (PStr ''refresh'')
         \<and> validate_token example_hash example_now (pair_access_token pair) s1
             = Inr (Some ctx, s2)
         \<and> lookup_obj (heap s2) ctx = Some (ODict rec)
         \<and> map_of rec ''user_id'' = Some (PStr []))"
proof -
  have h3: "valid_val (heap empty_state) PNone"
    by (simp add: valid_val_def)
  have h4: "example_hash ''A'' \<noteq> example_hash ''R''"
    by (simp add: example_hash_simps)
  show ?thesis
    using example_add_access example_add_refresh h3 h4 example_times_less(3)
      generate_token_any_user_id [where H = example_hash and a = "''A''" and r = "''R''"
        and uid = "[]",
        OF example_add_access example_add_refresh h3 h4 example_times_less(3)]
    by blast
qed


text \<open>
  C4. A refresh token works once. Let the record of the refresh token \<open>rtok\<close> name the
  access token \<open>atok\<close> issued with it (its \<^verbatim>\<open>access_token_hash\<close> is the hash of \<open>atok\<close>).
  Once \<^verbatim>\<open>refresh_token(rtok)\<close> has succeeded, a second \<^verbatim>\<open>refresh_token(rtok)\<close> returns
  invalid and \<open>atok\<close> no longer validates, whatever the clock says. The environment's part:
  the two tokens drawn for the new pair do not hash to the keys of the old pair, and the
  hash of \<open>atok\<close> is not the empty string (a SHA-256 hex digest has 64 characters).
\<close>

theorem refresh_token_one_time:
  assumes "storage_get (H rtok) s = Inr (Some rd, s0)"
    and "lookup_obj (heap s0) rd = Some (ODict rec)"
    and "dict_get rec ''access_token_hash'' = PStr (H atok)"
    and "H atok \<noteq> []"
    and "refresh_token H m now now' new_a new_r rtok s = Inr (Some pair, s1)"
    and "H new_a \<noteq> H rtok" and "H new_r \<noteq> H rtok"
    and "H new_a \<noteq> H atok" and "H new_r \<noteq> H atok"
  shows "refresh_token H m later later' next_a next_r rtok s1 = Inr (None, s1)
         \<and> validate_token H vnow atok s1 = Inr (None, s1)"
proof -
  obtain ca cr where
    "store s1 = (store s)(H atok := None, H rtok := None, H new_a \<mapsto> ca, H new_r \<mapsto> cr)"
    using refresh_token_success_store [OF assms(1-5)] by blast
  then have "store s1 (H rtok) = None" "store s1 (H atok) = None"
    using assms(6-9) by simp_all
  then show ?thesis
    by (simp add: refresh_token_absent validate_token_absent)
qed


theorem refresh_token_one_time_witness:
  "storage_get (example_hash ''R'') issued_state =
     Inr (Some 5, issued_state\<lparr>heap := heap issued_state @ [ODict example_refresh_record]\<rparr>)
   \<and> lookup_obj (heap (issued_state\<lparr>heap := heap issued_state @ [ODict example_refresh_record]\<rparr>)) 5
       = Some (ODict example_refresh_record)
   \<and> dict_get example_refresh_record ''access_token_hash'' = PStr (example_hash ''A'')
   \<and> example_hash ''A'' \<noteq> []
   \<and> refresh_token example_hash example_manager example_now example_now ''A2'' ''R2'' ''R''
        issued_state
       = Inr (Some \<lparr>pair_access_token = ''A2'', pair_refresh_token = ''R2'',
                     expires_in = 3600, token_type = ''Bearer''\<rparr>, refreshed_state)
   \<and> example_hash ''A2'' \<noteq> example_hash ''R''
   \<and> example_hash ''R2'' \<noteq> example_hash ''R''
   \<and> example_hash ''A2'' \<noteq> example_hash ''A''
   \<and> example_hash ''R2'' \<noteq> example_hash ''A''
   \<and> refresh_token example_hash example_manager example_now example_now ''A3'' ''R3'' ''R''
        refreshed_state = Inr (None, refreshed_state)
   \<and> validate_token example_hash example_now ''A'' refreshed_state
       = Inr (None, refreshed_state)"
proof -
  have h3: "dict_get example_refresh_record ''access_token_hash'' = PStr (example_hash ''A'')"
    by (simp add: dict_get_def example_refresh_record_def)
  have h4: "example_hash ''A'' \<noteq> []"
    by (rule example_hash_simps)
  have h6: "example_hash ''A2'' \<noteq> example_hash ''R''"
    and h7: "example_hash ''R2'' \<noteq> example_hash ''R''"
    and h8: "example_hash ''A2'' \<noteq> example_hash ''A''"
    and h9: "example_hash ''R2'' \<noteq> example_hash ''A''"
    by (simp_all add: example_hash_simps)
  note h2 = issued_copy_lookup [of example_refresh_record]
  show ?thesis
    using issued_get_refresh h2 h3 h4 issued_refresh h6 h7 h8 h9
      refresh_token_one_time [where H = example_hash and rtok = "''R''" and atok = "''A''"
        and new_a = "''A2''" and new_r = "''R2''" and m = example_manager
        and later = example_now and later' = example_now and vnow = example_now
        and next_a = "''A3''" and next_r = "''R3''",
        OF issued_get_refresh h2 h3 h4 issued_refresh h6 h7 h8 h9]
    by blast
qed

text \<open>
  C5. Revocation is asymmetric. For every pair that \<^verbatim>\<open>generate_token\<close> returns:
  revoking the access token leaves the refresh token usable (\<^verbatim>\<open>refresh_token\<close> on it
  succeeds, as long as it has not expired and the new expiry times are representable);
  revoking the refresh token removes both records, after which the access token does not
  validate and the refresh token does not refresh. The two tokens hash to different keys
  and the hash of the access token is not the empty string.
\<close>

theorem revoke_asymmetry:
  assumes "dt_add_seconds now (token_ttl m) = Inr ea"
    and "dt_add_seconds now (refresh_ttl m) = Inr er"
    and "valid_val (heap s) scopes"
    and "H a \<noteq> H r"
    and "H a \<noteq> []"
    and "\<not> dt_less er later"
    and "dt_add_seconds later' (token_ttl m) = Inr ea'"
    and "dt_add_seconds later' (refresh_ttl m) = Inr er'"
  shows "\<exists>pair s1 s2 pair' s3 s4.
           generate_token H m now a r uid scopes s = Inr (pair, s1)
           \<and> pair_access_token pair = a \<and> pair_refresh_token pair = r
           \<and> revoke_token H a s1 = Inr (True, s2)
           \<and> refresh_token H m later later' new_a new_r r s2 = Inr (Some pair', s3)
           \<and> revoke_token H r s1 = Inr (True, s4)
           \<and> store s4 (H a) = None \<and> store s4 (H r) = None
           \<and> validate_token H vnow a s4 = Inr (None, s4)
           \<and> refresh_token H m later later' new_a new_r r s4 = Inr (None, s4)"
proof -
  let ?pair = "\<lparr>pair_access_token = a, pair_refresh_token = r, expires_in = token_ttl m,
                token_type = ''Bearer''\<rparr>"
  obtain s1 ca cr sc1 sc2 where
    g: "generate_token H m now a r uid scopes s = Inr (?pair, s1)"
    and st: "store s1 = (store s)(H a \<mapsto> ca, H r \<mapsto> cr)"
    and la: "lookup_obj (heap s1) ca =
               Some (ODict [(''user_id'', uid), (''scopes'', sc1),
                            (''type'', PStr ''access''), (''expires_at'', PStr (isoformat ea))])"
    and lr: "lookup_obj (heap s1) cr =
               Some (ODict [(''user_id'', uid), (''scopes'', sc2),
                            (''access_token_hash'', PStr (H a)), (''type'', PStr ''refresh''),
                            (''expires_at'', PStr (isoformat er))])"
    using generate_token_effect [OF assms(1-3), of H a r uid] by blast
  let ?da = "[(''user_id'', uid), (''scopes'', sc1), (''type'', PStr ''access''),
              (''expires_at'', PStr (isoformat ea))]"
  let ?dr = "[(''user_id'', uid), (''scopes'', sc2), (''access_token_hash'', PStr (H a)),
              (''type'', PStr ''refresh''), (''expires_at'', PStr (isoformat er))]"
  have sa: "store s1 (H a) = Some ca" and sr: "store s1 (H r) = Some cr"
    using st assms(4) by simp_all
  have ve: "valid_datetime ea" and vr: "valid_datetime er"
    using assms(1,2) by (auto dest: dt_add_seconds_valid)
  let ?s2 = "storage_delete (H a)
               (s1\<lparr>heap := heap s1 @ [ODict (AList.update ''expires_at'' (PDatetime ea) ?da)]\<rparr>)"
  have rev_a: "revoke_token H a s1 = Inr (True, ?s2)"
    using sa la _ ve by (rule revoke_token_stored_access) (simp_all add: dict_get_def)
  have "store ?s2 (H r) = Some cr" "lookup_obj (heap ?s2) cr = Some (ODict ?dr)"
    using sr lr assms(4) by (simp_all add: storage_delete_def lookup_obj_append)
  then have "\<exists>s3. refresh_token H m later later' new_a new_r r ?s2 =
                 Inr (Some \<lparr>pair_access_token = new_a, pair_refresh_token = new_r,
                             expires_in = token_ttl m, token_type = ''Bearer''\<rparr>, s3)"
    using _ vr _ assms(6) _ _ assms(7,8)
    by (rule refresh_token_stored_succeeds [where ah = "H a" and uid = uid])
      (simp_all add: dict_get_def)
  then obtain pair' s3 where
    ref: "refresh_token H m later later' new_a new_r r ?s2 = Inr (Some pair', s3)"
    by blast
  let ?s4 = "storage_delete (H r) (storage_delete (H a)
               (s1\<lparr>heap := heap s1 @ [ODict (AList.update ''expires_at'' (PDatetime er) ?dr)]\<rparr>))"
  have rev_r: "revoke_token H r s1 = Inr (True, ?s4)"
    using sr lr _ vr _ _ assms(5)
    by (rule revoke_token_stored_refresh) (simp_all add: dict_get_def)
  have gone: "store ?s4 (H a) = None" "store ?s4 (H r) = None"
    by (simp_all add: storage_delete_def)
  have "validate_token H vnow a ?s4 = Inr (None, ?s4)"
    using gone(1) by (rule validate_token_absent)
  moreover have "refresh_token H m later later' new_a new_r r ?s4 = Inr (None, ?s4)"
    using gone(2) by (rule refresh_token_absent)
  ultimately show ?thesis
    using g rev_a ref rev_r gone by (intro exI [of _ ?pair] exI [of _ s1] exI [of _ ?s2]
        exI [of _ pair'] exI [of _ s3] exI [of _ ?s4]) simp
qed

theorem revoke_asymmetry_witness:
  "dt_add_seconds example_now (token_ttl example_manager) = Inr example_access_expires
   \<and> dt_add_seconds example_now (refresh_ttl example_manager) = Inr example_refresh_expires
   \<and> valid_val (heap scopes_state) (PRef 0)
   \<and> example_hash ''A'' \<noteq> example_hash ''R''
   \<and> example_hash ''A'' \<noteq> []
   \<and> \<not> dt_less example_refresh_expires example_now
   \<and> dt_add_seconds example_now (token_ttl example_manager) = Inr example_access_expires
   \<and> dt_add_seconds example_now (refresh_ttl example_manager) = Inr example_refresh_expires
   \<and> (\<exists>pair s1 s2 pair' s3 s4.
         generate_token example_hash example_manager example_now ''A'' ''R'' (PStr ''u1'')
           (PRef 0) scopes_state = Inr (pair, s1)
         \<and> pair_access_token pair = ''A'' \<and> pair_refresh_token pair = ''R''
         \<and> revoke_token example_hash ''A'' s1 = Inr (True, s2)
         \<and> refresh_token example_hash example_manager example_now example_now ''A2'' ''R2''
              ''R'' s2 = Inr (Some pair', s3)
         \<and> revoke_token example_hash ''R'' s1 = Inr (True, s4)
         \<and> store s4 (example_hash ''A'') = None \<and> store s4 (example_hash ''R'') = None
         \<and> validate_token example_hash example_now ''A'' s4 = Inr (None, s4)
         \<and> refresh_token example_hash example_manager example_now example_now ''A2'' ''R2''
              ''R'' s4 = Inr (None, s4))"
proof -
  have h3: "valid_val (heap scopes_state) (PRef 0)"
    by (simp add: valid_val_def scopes_state_def)
  have h4: "example_hash ''A'' \<noteq> example_hash ''R''" and h5: "example_hash ''A'' \<noteq> []"
    by (simp_all add: example_hash_simps)
  show ?thesis
    using example_add_access example_add_refresh h3 h4 h5 example_times_less(4)
      revoke_asymmetry [where H = example_hash and a = "''A''" and r = "''R''"
        and uid = "PStr ''u1''" and later = example_now and later' = example_now
        and vnow = example_now and new_a = "''A2''" and new_r = "''R2''",
        OF example_add_access example_add_refresh h3 h4 h5 example_times_less(4)
        example_add_access example_add_refresh]
    by blast
qed


text \<open>
  C2. \<^verbatim>\<open>set\<close> stores \<^verbatim>\<open>value.copy()\<close>, a shallow copy: the stored dictionary is a new
  object (\<open>storage_set_fresh_dict\<close>), so assigning to a key of the caller's record does
  not reach it, but its \<^verbatim>\<open>'scopes'\<close> is the caller's own list object. The run below
  stores the record of \<open>caller_state\<close> under \<^verbatim>\<open>'k'\<close>; \<^verbatim>\<open>get('k')\<close> then shows the scopes
  \<^verbatim>\<open>['read']\<close>; after the caller appends \<^verbatim>\<open>'admin'\<close> to the list it passed in,
  \<^verbatim>\<open>get('k')\<close> shows \<^verbatim>\<open>['read', 'admin']\<close>. The stored state is not isolated from
  the caller, against the comment "Store a copy to prevent external modifications".
\<close>

theorem set_shares_scopes_list:
  "storage_set ''k'' 1 caller_state = Inr stored_state
   \<and> get_scopes ''k'' stored_state = Some [''read'']
   \<and> get_scopes ''k'' (list_append 0 ''admin'' stored_state) = Some [''read'', ''admin'']"
proof -
  have "storage_set ''k'' 1 caller_state = Inr stored_state"
    by (simp add: storage_set_def caller_state_def stored_state_def lookup_obj_def alloc_def
        eval_nat_numeral)
  moreover have "get_scopes ''k'' stored_state = Some [''read'']"
    by (simp add: get_scopes_def stored_state_get) (simp add: stored_state_def lookup_obj_def)
  moreover have "get_scopes ''k'' (list_append 0 ''admin'' stored_state)
                   = Some [''read'', ''admin'']"
    by (simp add: get_scopes_def stored_state_append_get lookup_obj_def)
  ultimately show ?thesis
    by simp
qed



end
